theory Spec2Isabelle
  imports Main "HOL-Library.AList" "HOL-Library.Sublist" "HOL-Library.Word"
    "HOL-Library.Char_ord" "HOL-Library.List_Lexorder"
begin

section \<open>Common data\<close>

text \<open>
  Python strings are modelled as \<open>string\<close> (lists of 8-bit characters), an argument
  mapping (\<open>args: dict\<close>, always built with string values by the dispatcher) as a
  partial map, and an exception object deriving from \<open>Exception\<close> by its class name
  together with the text \<open>str(e)\<close>.  No command of \<open>modules/commands.py\<close> exits the
  interpreter, so a command function either returns a text or raises such an
  exception.
\<close>

type_synonym args = "string \<rightharpoonup> string"

datatype pyexc = PyExc (exc_class: string) (exc_str: string)

record command =
  func :: "args \<Rightarrow> pyexc + string"
  doc :: "string option"

text \<open>\<open>commands.COMMANDS\<close>: a dict, kept in insertion order.\<close>

type_synonym registry = "(string \<times> command) list"

datatype emitted = Print string | Log string

fun str_nat :: "nat \<Rightarrow> string" where
  "str_nat n =
     (if n < 10 then [''0123456789'' ! n]
      else str_nat (n div 10) @ [''0123456789'' ! (n mod 10)])"

declare str_nat.simps [simp del]

section \<open>Worker threads (modules/workerthread.py)\<close>

text \<open>
  The part of the process a worker touches: the shared result queue, the
  \<open>unfinished_tasks\<close> counter behind \<open>Queue.task_done\<close>/\<open>Queue.join\<close>, the debug flag
  of \<open>modules/logger.py\<close> and what has been written to standard output.
\<close>

record pool =
  result_queue :: "(nat \<times> string) list"
  unfinished_tasks :: nat
  debug_suppressed :: bool
  stdout :: "emitted list"

datatype run_status = Blocked | Exited

definition task_done :: "pool \<Rightarrow> pyexc + pool" where
  "task_done p =
     (if unfinished_tasks p = 0
      then Inl (PyExc ''ValueError'' ''task_done() called too many times'')
      else Inr (p\<lparr>unfinished_tasks := unfinished_tasks p - 1\<rparr>))"

text \<open>
  The \<open>finally\<close> block of \<open>Worker.run\<close>: both statements sit in their own
  \<open>try ... except Exception: pass\<close>.  The local \<open>result\<close> is unbound (\<open>None\<close> here)
  until the first task has been processed; reading it then raises, and the raise is
  swallowed.
\<close>

definition worker_finally :: "nat \<Rightarrow> string option \<Rightarrow> pool \<Rightarrow> pool" where
  "worker_finally wid result p =
     (let p1 = (case task_done p of Inl e \<Rightarrow> p | Inr p' \<Rightarrow> p')
      in case result of
           None \<Rightarrow> p1
         | Some r \<Rightarrow> p1\<lparr>result_queue := result_queue p1 @ [(wid, r)]\<rparr>)"

text \<open>The \<open>try\<close>/\<open>except Exception\<close> part of one iteration, for a task \<open>(command, args)\<close>.\<close>

definition worker_try :: "registry \<Rightarrow> nat \<Rightarrow> pool \<Rightarrow> string \<Rightarrow> args \<Rightarrow> string \<times> pool" where
  "worker_try reg wid p cmd a =
     (case map_of reg cmd of
        Some c \<Rightarrow>
          (case func c a of
             Inr r \<Rightarrow> (r, p)
           | Inl e \<Rightarrow> (''Fehler bei '' @ cmd @ '': '' @ exc_str e, p))
      | None \<Rightarrow>
          (''Unbekanntes Kommando: '' @ cmd,
           if \<not> debug_suppressed p
           then p\<lparr>stdout := stdout p @
                  [Log (''Worker '' @ str_nat wid @ '' kennt Command '' @ [CHR 0x27] @ cmd
                        @ [CHR 0x27] @ '' nicht'')]\<rparr>
           else p))"

text \<open>
  \<open>Worker.run\<close> on the items that are (or will be) in the task queue, oldest first;
  \<open>None\<close> is the shutdown sentinel.  With nothing left to take, \<open>task_queue.get()\<close>
  blocks: the thread is alive and waiting.
\<close>

fun run :: "registry \<Rightarrow> nat \<Rightarrow> string option \<Rightarrow> pool \<Rightarrow> (string \<times> args) option list
            \<Rightarrow> run_status \<times> pool" where
  "run reg wid result p [] = (Blocked, p)"
| "run reg wid result p (None # q) = (Exited, worker_finally wid result p)"
| "run reg wid result p (Some (cmd, a) # q) =
     (case worker_try reg wid p cmd a of
        (r, p1) \<Rightarrow> run reg wid (Some r) (worker_finally wid (Some r) p1) q)"

section \<open>The binary container (app.py)\<close>

type_synonym byte = "8 word"

text \<open>\<open>str.lower\<close> and \<open>str.upper\<close>, on the ASCII letters.\<close>

definition lower_char :: "char \<Rightarrow> char" where
  "lower_char c =
     (case map_of (zip ''ABCDEFGHIJKLMNOPQRSTUVWXYZ'' ''abcdefghijklmnopqrstuvwxyz'') c of
        Some l \<Rightarrow> l | None \<Rightarrow> c)"

definition upper_char :: "char \<Rightarrow> char" where
  "upper_char c =
     (case map_of (zip ''abcdefghijklmnopqrstuvwxyz'' ''ABCDEFGHIJKLMNOPQRSTUVWXYZ'') c of
        Some u \<Rightarrow> u | None \<Rightarrow> c)"

definition lower :: "string \<Rightarrow> string" where
  "lower s = map lower_char s"

text \<open>\<open>_LE_MAGIC = b"LUWEXE1"\<close>\<close>

definition LE_MAGIC :: "byte list" where
  "LE_MAGIC = [0x4C, 0x55, 0x57, 0x45, 0x58, 0x45, 0x31]"

text \<open>
  \<open>n.to_bytes(k, "big")\<close> for an unsigned \<open>n\<close> (it raises \<open>OverflowError\<close> when \<open>n\<close> does
  not fit) and \<open>int.from_bytes(bs, "big")\<close>.
\<close>

fun big_endian :: "nat \<Rightarrow> nat \<Rightarrow> byte list" where
  "big_endian 0 n = []"
| "big_endian (Suc k) n = big_endian k (n div 256) @ [of_nat (n mod 256)]"

definition to_bytes :: "nat \<Rightarrow> nat \<Rightarrow> pyexc + byte list" where
  "to_bytes n k =
     (if n < 256 ^ k then Inr (big_endian k n)
      else Inl (PyExc ''OverflowError'' ''int too big to convert''))"

definition from_bytes :: "byte list \<Rightarrow> nat" where
  "from_bytes bs = foldl (\<lambda>acc b. acc * 256 + unat b) 0 bs"

text \<open>
  The manifest dict of \<open>compile_latin\<close>.  The creation time is a float; its type is
  left open.
\<close>

record 't manifest =
  m_name :: string
  m_entry :: string
  m_created :: 't
  m_py_version :: string
  m_type :: string

text \<open>
  The standard-library functions the codec calls are parameters of the model:
  \<open>os.path.splitext\<close> and \<open>os.path.basename\<close>; \<open>json.dumps(m, ensure_ascii=False)\<close>
  followed by \<open>.encode("utf-8")\<close>; \<open>.decode("utf-8")\<close> followed by \<open>json.loads\<close>, giving
  a JSON value of type \<open>'j\<close>; \<open>gzip.compress\<close> and \<open>gzip.decompress\<close>; and
  \<open>bytes.decode("utf-8", errors="replace")\<close>, which has no failure case.  The last
  parameter, \<open>no_memory n\<close>, tells whether the interpreter fails to allocate a buffer
  of \<open>n\<close> bytes.
\<close>

record ('t, 'j) pylib =
  splitext :: "string \<Rightarrow> string \<times> string"
  basename :: "string \<Rightarrow> string"
  json_dumps_utf8 :: "'t manifest \<Rightarrow> pyexc + byte list"
  utf8_json_loads :: "byte list \<Rightarrow> pyexc + 'j"
  gzip_compress :: "byte list \<Rightarrow> byte list"
  gzip_decompress :: "byte list \<Rightarrow> pyexc + byte list"
  decode_utf8_replace :: "byte list \<Rightarrow> string"
  no_memory :: "nat \<Rightarrow> bool"

text \<open>
  \<open>compile_latin\<close>, between reading the script and writing the container:
  \<open>script_abspath\<close> is the resolved path, \<open>script_bytes\<close> what was read from it, \<open>now\<close>
  the value of \<open>time.time()\<close> and \<open>py_version\<close> the interpreter's version tag.  The
  result is the content written to the \<open>.le\<close> file.
\<close>

definition compile_latin ::
  "('t, 'j) pylib \<Rightarrow> string \<Rightarrow> byte list \<Rightarrow> 't \<Rightarrow> string \<Rightarrow> pyexc + byte list" where
  "compile_latin lib script_abspath script_bytes now py_version =
     (let ext = lower (snd (splitext lib script_abspath));
          script_type = (if ext = ''.py'' then ''python'' else ''luw'');
          manifest = \<lparr>m_name = fst (splitext lib (basename lib script_abspath)),
                      m_entry = basename lib script_abspath,
                      m_created = now,
                      m_py_version = py_version,
                      m_type = script_type\<rparr>
      in case json_dumps_utf8 lib manifest of
           Inl e \<Rightarrow> Inl e
         | Inr manifest_bytes \<Rightarrow>
             (let compressed = gzip_compress lib script_bytes
              in case to_bytes (length manifest_bytes) 8 of
                   Inl e \<Rightarrow> Inl e
                 | Inr len_bytes \<Rightarrow>
                     Inr (LE_MAGIC @ len_bytes @ manifest_bytes @ compressed)))"

text \<open>
  \<open>f.read(n)\<close> on the rest \<open>f\<close> of a file opened in binary mode: the read data and
  what is left of the file.  The call gets a buffer of \<open>n\<close> bytes before it reads,
  so a request for more than the file still holds can fail although the file is
  small: with \<open>OverflowError\<close> when \<open>n\<close> exceeds \<open>sys.maxsize\<close> (\<open>2 ^ 63 - 1\<close>), with
  \<open>MemoryError\<close> when the buffer cannot be allocated; otherwise it returns the
  bytes there are, fewer than \<open>n\<close>.  A request within the rest of the file returns
  the next \<open>n\<close> bytes: the content of the file itself is taken to fit in memory (its
  length is an object size, hence at most \<open>sys.maxsize\<close>), as it is for \<open>f.read()\<close>.
\<close>

definition file_read ::
  "('t, 'j) pylib \<Rightarrow> nat \<Rightarrow> byte list \<Rightarrow> pyexc + (byte list \<times> byte list)" where
  "file_read lib n f =
     (if n \<le> length f then Inr (take n f, drop n f)
      else if 2 ^ 63 \<le> n
      then Inl (PyExc ''OverflowError'' ''cannot fit 'int' into an index-sized integer'')
      else if no_memory lib n then Inl (PyExc ''MemoryError'' [])
      else Inr (f, []))"

text \<open>
  The decoding part of \<open>load_and_run_le\<close> (up to \<open>script_text\<close>).  \<open>content\<close> is the
  content of the file at \<open>le_path\<close>, \<open>None\<close> when there is no such file.  The reads
  of the magic and of the length field take the next 7 and 8 bytes, fewer at the
  end of the file; the read of the manifest is \<open>file_read\<close>, outside every \<open>try\<close>, so
  its exception reaches the caller as it is.  The result is the parsed manifest,
  the decompressed bytes and the decoded text.
\<close>

definition load_le ::
  "('t, 'j) pylib \<Rightarrow> string \<Rightarrow> byte list option \<Rightarrow> pyexc + ('j \<times> byte list \<times> string)" where
  "load_le lib le_path content =
     (case content of
        None \<Rightarrow> Inl (PyExc ''FileNotFoundError'' le_path)
      | Some f \<Rightarrow>
          (let magic = take (length LE_MAGIC) f in
           if magic \<noteq> LE_MAGIC
           then Inl (PyExc ''ValueError'' ''Not a LUW binary (.le) or unsupported version'')
           else
             (let f1 = drop (length LE_MAGIC) f;
                  manifest_len = from_bytes (take 8 f1);
                  f2 = drop 8 f1
              in case file_read lib manifest_len f2 of
                   Inl e \<Rightarrow> Inl e
                 | Inr (manifest_bytes, f3) \<Rightarrow>
                     (case utf8_json_loads lib manifest_bytes of
                        Inl e \<Rightarrow> Inl (PyExc ''ValueError''
                                    (''Invalid manifest in '' @ le_path @ '': '' @ exc_str e))
                      | Inr manifest \<Rightarrow>
                          (let payload = f3
                           in case gzip_decompress lib payload of
                                Inl e \<Rightarrow> Inl (PyExc ''ValueError''
                                            (''Invalid payload (not gzip?) in '' @ le_path @ '': ''
                                             @ exc_str e))
                              | Inr script_bytes \<Rightarrow>
                                  Inr (manifest, script_bytes,
                                       decode_utf8_replace lib script_bytes))))))"

text \<open>
  A small instance of the library parameters, to run the codec on concrete files:
  a "compressed" stream is the two gzip identification bytes followed by the data,
  and the empty stream decompresses to nothing (as \<open>gzip.decompress(b"")\<close> does); a
  manifest is written as its entry name between braces, parsing accepts what
  starts with an opening brace and ends with a closing one; text decoding keeps
  the ASCII bytes; and a buffer of \<open>2 ^ 62\<close> bytes or more cannot be allocated.
\<close>

definition demo_lib :: "(nat, byte list) pylib" where
  "demo_lib =
     \<lparr>splitext = (\<lambda>p. (takeWhile (\<lambda>c. c \<noteq> CHR ''.'') p, dropWhile (\<lambda>c. c \<noteq> CHR ''.'') p)),
      basename = (\<lambda>p. rev (takeWhile (\<lambda>c. c \<noteq> CHR ''/'') (rev p))),
      json_dumps_utf8 = (\<lambda>m. Inr ([0x7B] @ map of_char (m_entry m) @ [0x7D])),
      utf8_json_loads = (\<lambda>bs. if take 1 bs = [0x7B] \<and> take 1 (rev bs) = [0x7D] then Inr bs
                               else Inl (PyExc ''JSONDecodeError'' ''Expecting value'')),
      gzip_compress = (\<lambda>bs. [0x1F, 0x8B] @ bs),
      gzip_decompress = (\<lambda>bs. if bs = [] then Inr []
                               else if take 2 bs = [0x1F, 0x8B] then Inr (drop 2 bs)
                               else Inl (PyExc ''BadGzipFile'' ''Not a gzipped file'')),
      decode_utf8_replace = (\<lambda>bs. map (\<lambda>b. if b < 0x80 then char_of (unat b) else CHR 0x3F) bs),
      no_memory = (\<lambda>n. 2 ^ 62 \<le> n)\<rparr>"
section \<open>Strings and tokens\<close>

text \<open>
  The string methods the dispatcher uses.  White space is the ASCII white space of
  \<open>str.isspace\<close>: tab, line feed, vertical tab, form feed, carriage return, the four
  separators \<open>0x1C\<close> to \<open>0x1F\<close> and the space.
\<close>

definition py_space :: "char \<Rightarrow> bool" where
  "py_space c \<longleftrightarrow> c \<in> set [CHR 0x09, CHR 0x0A, CHR 0x0B, CHR 0x0C, CHR 0x0D,
                           CHR 0x1C, CHR 0x1D, CHR 0x1E, CHR 0x1F, CHR 0x20]"

text \<open>\<open>s.strip()\<close> and \<open>s.strip(chars)\<close>\<close>

definition strip_chars :: "(char \<Rightarrow> bool) \<Rightarrow> string \<Rightarrow> string" where
  "strip_chars P s = rev (dropWhile P (rev (dropWhile P s)))"

definition strip :: "string \<Rightarrow> string" where
  "strip s = strip_chars py_space s"

text \<open>\<open>s.split()\<close>: the maximal runs of characters that are not white space.\<close>

fun split_runs :: "(char \<Rightarrow> bool) \<Rightarrow> string \<Rightarrow> string \<Rightarrow> string list" where
  "split_runs sp cur [] = (if cur = [] then [] else [cur])"
| "split_runs sp cur (c # cs) =
     (if sp c then (if cur = [] then split_runs sp [] cs else cur # split_runs sp [] cs)
      else split_runs sp (cur @ [c]) cs)"

definition split_ws :: "string \<Rightarrow> string list" where
  "split_ws s = split_runs py_space [] s"

text \<open>\<open>s.split(d)\<close> for a one-character separator: empty pieces are kept.\<close>

fun split_on :: "char \<Rightarrow> string \<Rightarrow> string list" where
  "split_on d [] = [[]]"
| "split_on d (c # cs) =
     (if c = d then [] # split_on d cs
      else (case split_on d cs of
              [] \<Rightarrow> [[c]]
            | piece # pieces \<Rightarrow> (c # piece) # pieces))"

text \<open>\<open>sep.join(xs)\<close>\<close>

fun join :: "string \<Rightarrow> string list \<Rightarrow> string" where
  "join sep [] = []"
| "join sep [x] = x"
| "join sep (x # y # ys) = x @ sep @ join sep (y # ys)"

text \<open>\<open>s.startswith(p)\<close> and \<open>sub in s\<close>\<close>

definition startswith :: "string \<Rightarrow> string \<Rightarrow> bool" where
  "startswith s p \<longleftrightarrow> take (length p) s = p"

fun contains :: "string \<Rightarrow> string \<Rightarrow> bool" where
  "contains [] sub = (sub = [])"
| "contains (c # cs) sub = (startswith (c # cs) sub \<or> contains cs sub)"

text \<open>\<open>s.splitlines()\<close>, for the ASCII line boundaries.\<close>

definition line_end :: "char \<Rightarrow> bool" where
  "line_end c \<longleftrightarrow> c \<in> set [CHR 0x0A, CHR 0x0B, CHR 0x0C, CHR 0x0D, CHR 0x1C, CHR 0x1D, CHR 0x1E]"

fun splitlines_from :: "string \<Rightarrow> string \<Rightarrow> string list" where
  "splitlines_from cur [] = (if cur = [] then [] else [cur])"
| "splitlines_from cur [c] = (if line_end c then [cur] else [cur @ [c]])"
| "splitlines_from cur (c # d # cs) =
     (if c = CHR 0x0D \<and> d = CHR 0x0A then cur # splitlines_from [] cs
      else if line_end c then cur # splitlines_from [] (d # cs)
      else splitlines_from (cur @ [c]) (d # cs))"

definition splitlines :: "string \<Rightarrow> string list" where
  "splitlines s = splitlines_from [] s"

subsection \<open>shlex.split\<close>

text \<open>
  \<open>shlex.split(s)\<close> of the standard library: the lexer in POSIX mode with
  \<open>whitespace_split\<close> set and no comment characters.  Its state is \<open>' '\<close> (between
  tokens), \<open>'a'\<close> (in a word), a quote character, or the escape character together
  with the state to return to (a quote, or \<open>'a'\<close> written \<open>None\<close>); \<open>quoted\<close> and \<open>token\<close>
  are the lexer's variables of these names.  Between tokens the token is empty and
  \<open>quoted\<close> is false.  An unclosed quotation and a trailing escape raise
  \<open>ValueError\<close>.
\<close>

datatype lexstate = Space | Word | Quote char | Escape "char option"

definition shlex_whitespace :: "char \<Rightarrow> bool" where
  "shlex_whitespace c \<longleftrightarrow> c \<in> set [CHR 0x20, CHR 0x09, CHR 0x0D, CHR 0x0A]"

definition shlex_quote :: "char \<Rightarrow> bool" where
  "shlex_quote c \<longleftrightarrow> c = CHR 0x27 \<or> c = CHR 0x22"

definition shlex_escape :: "char \<Rightarrow> bool" where
  "shlex_escape c \<longleftrightarrow> c = CHR 0x5C"

definition emit :: "string \<Rightarrow> pyexc + string list \<Rightarrow> pyexc + string list" where
  "emit t r = (case r of Inl e \<Rightarrow> Inl e | Inr ts \<Rightarrow> Inr (t # ts))"

fun read_tokens :: "lexstate \<Rightarrow> bool \<Rightarrow> string \<Rightarrow> string \<Rightarrow> pyexc + string list" where
  "read_tokens Space quoted token [] = Inr []"
| "read_tokens Space quoted token (c # cs) =
     (if shlex_whitespace c then read_tokens Space False [] cs
      else if shlex_escape c then read_tokens (Escape None) False [] cs
      else if shlex_quote c then read_tokens (Quote c) False [] cs
      else read_tokens Word False [c] cs)"
| "read_tokens Word quoted token [] =
     (if \<not> quoted \<and> token = [] then Inr [] else Inr [token])"
| "read_tokens Word quoted token (c # cs) =
     (if shlex_whitespace c
      then (if token \<noteq> [] \<or> quoted then emit token (read_tokens Space False [] cs)
            else read_tokens Space False [] cs)
      else if shlex_quote c then read_tokens (Quote c) quoted token cs
      else if shlex_escape c then read_tokens (Escape None) quoted token cs
      else read_tokens Word quoted (token @ [c]) cs)"
| "read_tokens (Quote q) quoted token [] =
     Inl (PyExc ''ValueError'' ''No closing quotation'')"
| "read_tokens (Quote q) quoted token (c # cs) =
     (if c = q then read_tokens Word True token cs
      else if shlex_escape c \<and> q = CHR 0x22 then read_tokens (Escape (Some q)) True token cs
      else read_tokens (Quote q) True (token @ [c]) cs)"
| "read_tokens (Escape es) quoted token [] =
     Inl (PyExc ''ValueError'' ''No escaped character'')"
| "read_tokens (Escape es) quoted token (c # cs) =
     (case es of
        None \<Rightarrow> read_tokens Word quoted (token @ [c]) cs
      | Some q \<Rightarrow>
          read_tokens (Quote q) quoted
            ((if c \<noteq> CHR 0x5C \<and> c \<noteq> q then token @ [CHR 0x5C] else token) @ [c]) cs)"

definition shlex_split :: "string \<Rightarrow> pyexc + string list" where
  "shlex_split s = read_tokens Space False [] s"

text \<open>
  The pattern \<open>try: parts = shlex.split(s)\<close> / \<open>except Exception: parts = s.split()\<close>
  that the dispatcher uses wherever it splits a line.
\<close>

definition tokenize :: "string \<Rightarrow> string list" where
  "tokenize s = (case shlex_split s of Inr parts \<Rightarrow> parts | Inl e \<Rightarrow> split_ws s)"

text \<open>The characters that occur in the tokens of a result.\<close>

definition token_chars :: "pyexc + string list \<Rightarrow> char set" where
  "token_chars r = (case r of Inl e \<Rightarrow> {} | Inr ts \<Rightarrow> \<Union> (set ` set ts))"

section \<open>Alias expansion (modules/dispatch.py)\<close>

text \<open>\<open>ALIASES\<close>: a dict from alias names to expansion texts, in insertion order.\<close>

type_synonym aliases = "(string \<times> string) list"

text \<open>
  The \<open>while depth < max_depth\<close> loop of \<open>_expand_aliases_line\<close>, on its variables
  \<open>depth\<close> and \<open>new_line\<close>; it returns both as they are when the loop is left.
\<close>

function expand_loop :: "aliases \<Rightarrow> nat \<Rightarrow> nat \<Rightarrow> string \<Rightarrow> nat \<times> string" where
  "expand_loop al max_depth depth new_line =
     (if depth < max_depth
      then (case tokenize new_line of
              [] \<Rightarrow> (depth, new_line)
            | first # remainder \<Rightarrow>
                (case map_of al first of
                   Some expansion \<Rightarrow>
                     expand_loop al max_depth (depth + 1)
                       (if remainder \<noteq> [] then expansion @ '' '' @ join '' '' remainder
                        else expansion)
                 | None \<Rightarrow> (depth, new_line)))
      else (depth, new_line))"
  by pat_completeness auto
termination
  by (relation "measure (\<lambda>(al, max_depth, depth, new_line). max_depth - depth)") auto

declare expand_loop.simps [simp del]

definition expand_aliases_line :: "aliases \<Rightarrow> string \<Rightarrow> nat \<Rightarrow> string" where
  "expand_aliases_line al line max_depth =
     (if line = [] \<or> strip line = [] then line
      else snd (expand_loop al max_depth 0 line))"

section \<open>Arguments and variables (modules/dispatch.py)\<close>

text \<open>
  The process state that the built-ins read and change: the alias table, the
  environment (\<open>os.environ\<close>, in insertion order) and the working directory.
\<close>

record session =
  ALIASES :: aliases
  environ :: "(string \<times> string) list"
  cwd :: string

text \<open>
  \<open>_env_pattern\<close> is \<open>\$env:([A-Za-z_]\w*)|\${([A-Za-z_]\w*)}|\$([A-Za-z_]\w*)\<close>;
  the character classes are taken on ASCII.
\<close>

definition name_start :: "char \<Rightarrow> bool" where
  "name_start c \<longleftrightarrow>
     c \<in> set ''ABCDEFGHIJKLMNOPQRSTUVWXYZabcdefghijklmnopqrstuvwxyz_''"

definition name_char :: "char \<Rightarrow> bool" where
  "name_char c \<longleftrightarrow> name_start c \<or> c \<in> set ''0123456789''"

text \<open>\<open>os.environ.get(name, "")\<close>\<close>

definition env_get :: "(string \<times> string) list \<Rightarrow> string \<Rightarrow> string" where
  "env_get env name = (case map_of env name of Some v \<Rightarrow> v | None \<Rightarrow> [])"

text \<open>
  \<open>_env_pattern.sub(repl, s)\<close>: the string is scanned from the left; where one of
  the three forms matches (tried in the order of the pattern, the name taken as
  long as possible), it is replaced by the variable's value and the scan goes on
  behind the match; the replacement itself is not scanned again.
\<close>

function env_sub :: "(string \<times> string) list \<Rightarrow> string \<Rightarrow> string" where
  "env_sub env [] = []"
| "env_sub env (c # cs) =
     (if c = CHR ''$'' \<and> startswith cs ''env:'' \<and> drop 4 cs \<noteq> [] \<and> name_start (hd (drop 4 cs))
      then env_get env (takeWhile name_char (drop 4 cs))
           @ env_sub env (dropWhile name_char (drop 4 cs))
      else if c = CHR ''$'' \<and> startswith cs ''{'' \<and> drop 1 cs \<noteq> [] \<and> name_start (hd (drop 1 cs))
              \<and> startswith (dropWhile name_char (drop 1 cs)) ''}''
      then env_get env (takeWhile name_char (drop 1 cs))
           @ env_sub env (drop 1 (dropWhile name_char (drop 1 cs)))
      else if c = CHR ''$'' \<and> cs \<noteq> [] \<and> name_start (hd cs)
      then env_get env (takeWhile name_char cs) @ env_sub env (dropWhile name_char cs)
      else c # env_sub env cs)"
  by pat_completeness auto
termination
proof (relation "measure (\<lambda>(env, s). length s)")
  show "wf (measure (\<lambda>(env, s). length s))" by simp
next
  fix env :: "(string \<times> string) list" and c :: char and cs :: string
  have "length (dropWhile name_char (drop 4 cs)) \<le> length (drop 4 cs)"
    by (rule length_dropWhile_le)
  then show "((env, dropWhile name_char (drop 4 cs)), env, c # cs)
               \<in> measure (\<lambda>(env, s). length s)"
    by simp
next
  fix env :: "(string \<times> string) list" and c :: char and cs :: string
  have "length (dropWhile name_char (drop 1 cs)) \<le> length (drop 1 cs)"
    by (rule length_dropWhile_le)
  then show "((env, drop 1 (dropWhile name_char (drop 1 cs))), env, c # cs)
               \<in> measure (\<lambda>(env, s). length s)"
    by simp
next
  fix env :: "(string \<times> string) list" and c :: char and cs :: string
  have "length (dropWhile name_char cs) \<le> length cs"
    by (rule length_dropWhile_le)
  then show "((env, dropWhile name_char cs), env, c # cs) \<in> measure (\<lambda>(env, s). length s)"
    by simp
next
  fix env :: "(string \<times> string) list" and c :: char and cs :: string
  show "((env, cs), env, c # cs) \<in> measure (\<lambda>(env, s). length s)"
    by simp
qed

definition expand_env_in_str :: "(string \<times> string) list \<Rightarrow> string \<Rightarrow> string" where
  "expand_env_in_str env s = (if s = [] then s else env_sub env s)"

text \<open>\<open>_expand_env_in_args\<close>: every value of the mapping is a string.\<close>

definition expand_env_in_args :: "(string \<times> string) list \<Rightarrow> args \<Rightarrow> args" where
  "expand_env_in_args env a = (\<lambda>k. map_option (expand_env_in_str env) (a k))"

text \<open>\<open>_was_quoted\<close>; \<open>original_text\<close> defaults to \<open>None\<close>.\<close>

definition was_quoted :: "string \<Rightarrow> string option \<Rightarrow> bool" where
  "was_quoted token original_text =
     (case original_text of
        None \<Rightarrow> False
      | Some text \<Rightarrow>
          if text = [] then False
          else if contains text ([CHR 0x22] @ token @ [CHR 0x22])
                  \<or> contains text ([CHR 0x27] @ token @ [CHR 0x27]) then True
          else if contains text (''${'' @ token @ ''}'') then True
          else False)"

text \<open>
  The loop \<open>while i < len(parts)\<close> shared by \<open>_build_args_from_parts\<close>,
  \<open>_extract_positional\<close>, \<open>_consumed_length\<close> and the index computation of the chain
  resolver, run on \<open>parts[i:]\<close>: a token starting with \<open>--\<close> that has a successor
  takes it as its value, every other token is positional.
\<close>

fun build_args_loop :: "string list \<Rightarrow> args \<Rightarrow> string list \<Rightarrow> args \<times> string list" where
  "build_args_loop [] a positional = (a, positional)"
| "build_args_loop [p] a positional = (a, positional @ [p])"
| "build_args_loop (p # v # rest) a positional =
     (if startswith p ''--''
      then build_args_loop rest (a(dropWhile (\<lambda>c. c = CHR ''-'') p \<mapsto> v)) positional
      else build_args_loop (v # rest) a (positional @ [p]))"

definition build_args_from_parts :: "string list \<Rightarrow> args" where
  "build_args_from_parts parts =
     (case build_args_loop (drop 1 parts) Map.empty [] of
        (a, positional) \<Rightarrow>
          if positional \<noteq> [] \<and> a ''str'' = None
          then a(''str'' \<mapsto> join '' '' positional)
          else a)"

fun extract_positional_loop :: "string list \<Rightarrow> string list" where
  "extract_positional_loop [] = []"
| "extract_positional_loop [p] = [p]"
| "extract_positional_loop (p # v # rest) =
     (if startswith p ''--'' then extract_positional_loop rest
      else p # extract_positional_loop (v # rest))"

definition extract_positional :: "string list \<Rightarrow> string list" where
  "extract_positional parts = extract_positional_loop (drop 1 parts)"

fun consumed_length_loop :: "nat \<Rightarrow> string list \<Rightarrow> nat" where
  "consumed_length_loop i [] = i"
| "consumed_length_loop i [p] = i + 1"
| "consumed_length_loop i (p # v # rest) =
     (if startswith p ''--'' then consumed_length_loop (i + 2) rest
      else consumed_length_loop (i + 1) (v # rest))"

definition consumed_length :: "string list \<Rightarrow> nat" where
  "consumed_length parts = consumed_length_loop 1 (drop 1 parts)"

fun pos_indices_loop :: "nat \<Rightarrow> string list \<Rightarrow> nat list" where
  "pos_indices_loop i [] = []"
| "pos_indices_loop i [p] = [i]"
| "pos_indices_loop i (p # v # rest) =
     (if startswith p ''--'' then pos_indices_loop (i + 2) rest
      else i # pos_indices_loop (i + 1) (v # rest))"

definition pos_indices :: "string list \<Rightarrow> nat list" where
  "pos_indices parts = pos_indices_loop 1 (drop 1 parts)"

definition BUILTIN_NAMES :: "string list" where
  "BUILTIN_NAMES = [''cd'', ''pwd'', ''echo'', ''print'', ''ls'', ''env'', ''set'', ''get'',
                    ''help'', ''alias'', ''unalias'', ''aliases'']"

subsection \<open>modules/colors.py\<close>

definition color_token :: "string \<Rightarrow> string" where
  "color_token token =
     (if token \<in> set [''!pwsh'', ''!cmd'', ''!multithread'', ''!mt'']
      then [CHR 0x1B] @ ''[33m'' @ token @ [CHR 0x1B] @ ''[0m''
      else if token \<in> set [''exit'', ''quit'']
      then [CHR 0x1B] @ ''[92m'' @ token @ [CHR 0x1B] @ ''[0m''
      else if startswith token ''--''
      then [CHR 0x1B] @ ''[90m'' @ token @ [CHR 0x1B] @ ''[0m''
      else token)"

definition colorize :: "string \<Rightarrow> string" where
  "colorize cmd_line =
     (case tokenize cmd_line of
        [] \<Rightarrow> []
      | p # ps \<Rightarrow> join '' '' (color_token p # map color_token ps))"

section \<open>Built-ins (modules/dispatch.py, \<open>_run_builtin\<close>)\<close>

text \<open>
  What the operating system answers is a parameter of the model: the home
  directory, \<open>os.chdir\<close> (from the current directory and a path to the new current
  directory), \<open>os.getcwd\<close>, \<open>os.listdir\<close>, the cases in which an assignment to
  \<open>os.environ\<close> is refused, \<open>shutil.which\<close>, and the run of an external process
  (\<open>Popen\<close>, the two reader threads and \<open>wait\<close>): the lines it prints, its return
  code and the exception if it could not be started or timed out.
\<close>

record os_model =
  home :: string
  os_chdir :: "string \<Rightarrow> string \<Rightarrow> pyexc + string"
  os_getcwd :: "string \<Rightarrow> pyexc + string"
  os_listdir :: "string \<Rightarrow> string \<Rightarrow> pyexc + string list"
  environ_refuses :: "string \<Rightarrow> string \<Rightarrow> pyexc option"
  which :: "string \<Rightarrow> string option"
  popen_wait :: "string list \<Rightarrow> nat option \<Rightarrow> emitted list \<times> int option \<times> pyexc option"

definition bindE :: "'e + 'a \<Rightarrow> ('a \<Rightarrow> 'e + 'b) \<Rightarrow> 'e + 'b" where
  "bindE m f = (case m of Inl e \<Rightarrow> Inl e | Inr x \<Rightarrow> f x)"

text \<open>\<open>a.get(k, "")\<close> and \<open>f"{name:15}"\<close>\<close>

definition get_str :: "args \<Rightarrow> string \<Rightarrow> string" where
  "get_str a k = (case a k of Some v \<Rightarrow> v | None \<Rightarrow> [])"

definition ljust15 :: "string \<Rightarrow> string" where
  "ljust15 s = s @ replicate (15 - length s) CHR '' ''"

definition BUILTIN_DOCS :: "(string \<times> string) list" where
  "BUILTIN_DOCS =
     [(''help'', ''help [command] - Show available commands or details for a command.''),
      (''alias'', ''alias name='' @ [CHR 0x27] @ ''expansion'' @ [CHR 0x27]
                  @ '' - Define a session alias.''),
      (''unalias'', ''unalias name - Remove an alias.''),
      (''aliases'', ''aliases - List currently defined aliases.''),
      (''cd'', ''cd <path> - Change directory (supports --mkdir/--create/--p).''),
      (''pwd'', ''pwd - Print current directory.''),
      (''echo'', ''echo <text> - Print text (expands $env:VAR).''),
      (''print'', ''print <text> - Same as echo.''),
      (''ls'', ''ls [path] - List directory.''),
      (''env'', ''env - List environment variables.''),
      (''set'', ''set VAR=VALUE - Set environment variable.''),
      (''get'', ''get VAR - Get environment variable.''),
      (''lupdate'', ''lupdate - Update the shell'')]"

text \<open>
  The first line of a command's docstring, as \<open>help\<close> takes it:
  \<open>func.__doc__.strip().splitlines()[0]\<close>, an \<open>IndexError\<close> when the docstring is
  nothing but white space.
\<close>

definition doc_summary :: "command \<Rightarrow> pyexc + string" where
  "doc_summary c =
     (case doc c of
        None \<Rightarrow> Inr []
      | Some d \<Rightarrow>
          if d = [] then Inr []
          else (case splitlines (strip d) of
                  [] \<Rightarrow> Inl (PyExc ''IndexError'' ''list index out of range'')
                | l # ls \<Rightarrow> Inr l))"

fun help_lines :: "registry \<Rightarrow> string list \<Rightarrow> pyexc + string list" where
  "help_lines reg [] = Inr []"
| "help_lines reg (name # names) =
     bindE (case map_of reg name of None \<Rightarrow> Inr [] | Some c \<Rightarrow> doc_summary c)
       (\<lambda>summary. bindE (help_lines reg names)
          (\<lambda>lines. Inr ((ljust15 name @ '' - '' @ summary) # lines)))"

text \<open>\<open>s.split("=", 1)\<close> on a string that contains \<open>=\<close>\<close>

definition split_eq :: "string \<Rightarrow> string \<times> string" where
  "split_eq raw = (takeWhile (\<lambda>c. c \<noteq> CHR ''='') raw, drop 1 (dropWhile (\<lambda>c. c \<noteq> CHR ''='') raw))"

definition strip_prefix :: "string \<Rightarrow> string \<Rightarrow> string" where
  "strip_prefix p s = (if startswith s p then drop (length p) s else s)"

definition builtin_help :: "registry \<Rightarrow> args \<Rightarrow> pyexc + string" where
  "builtin_help reg a =
     (let topic = strip (get_str a ''str'') in
      if topic = []
      then bindE (help_lines reg (sort (remdups (map fst reg))))
             (\<lambda>lines. Inr (join [CHR 0x0A]
                (lines @ [[CHR 0x0A] @ ''Builtins:'']
                 @ map (\<lambda>(bname, bdoc). ljust15 bname @ '' - '' @ bdoc)
                     (sort_key fst BUILTIN_DOCS))))
      else (case map_of reg topic of
              Some c \<Rightarrow> Inr (topic @ [CHR 0x0A] @ (case doc c of None \<Rightarrow> [] | Some d \<Rightarrow> d))
            | None \<Rightarrow>
                (case map_of BUILTIN_DOCS topic of
                   Some d \<Rightarrow> Inr (topic @ [CHR 0x0A] @ d)
                 | None \<Rightarrow> Inr (''No such command: '' @ topic))))"

text \<open>The \<open>try\<close> block of the \<open>alias\<close> built-in; \<open>None\<close> stands for "invalid alias".\<close>

definition alias_parse :: "string \<Rightarrow> pyexc + (string \<times> string) option" where
  "alias_parse raw =
     bindE (if CHR ''='' \<in> set raw
            then Inr (strip (fst (split_eq raw)),
                      strip_chars (\<lambda>c. c = CHR 0x27 \<or> c = CHR 0x22) (strip (snd (split_eq raw))))
            else bindE (shlex_split raw)
                   (\<lambda>parts. case parts of
                               [] \<Rightarrow> Inl (PyExc ''IndexError'' ''list index out of range'')
                             | name # rest \<Rightarrow> Inr (name, join '' '' rest)))
       (\<lambda>(name, rest). if name = [] \<or> rest = [] then Inr None else Inr (Some (name, rest)))"

definition run_builtin ::
  "registry \<Rightarrow> os_model \<Rightarrow> session \<Rightarrow> string \<Rightarrow> args
     \<Rightarrow> pyexc + ((bool \<times> string option) \<times> session)" where
  "run_builtin reg os s command a =
     (if command = ''help''
      then bindE (builtin_help reg a) (\<lambda>text. Inr ((True, Some text), s))
      else if command = ''alias''
      then (let raw = get_str a ''str'' in
            if raw = []
            then Inr ((True, Some (''usage: alias name='' @ [CHR 0x27] @ ''expansion'' @ [CHR 0x27])), s)
            else (case alias_parse raw of
                    Inl e \<Rightarrow> Inr ((True, Some (''alias failed: '' @ exc_str e)), s)
                  | Inr None \<Rightarrow> Inr ((True, Some ''invalid alias''), s)
                  | Inr (Some (name, rest)) \<Rightarrow>
                      Inr ((True, Some []), s\<lparr>ALIASES := AList.update name rest (ALIASES s)\<rparr>)))
      else if command = ''unalias''
      then (let name = strip (get_str a ''str'') in
            if name = [] then Inr ((True, Some ''usage: unalias name''), s)
            else Inr ((True, Some []), s\<lparr>ALIASES := AList.delete name (ALIASES s)\<rparr>))
      else if command = ''aliases''
      then (if ALIASES s = [] then Inr ((True, Some ''no aliases''), s)
            else Inr ((True, Some (join [CHR 0x0A]
                        (map (\<lambda>(k, v). k @ '' -> '' @ v) (ALIASES s)))), s))
      else if command = ''cd''
      then (let path0 = (if get_str a ''str'' \<noteq> [] then get_str a ''str'' else get_str a ''path'');
                path = (if path0 = [] then home os else path0)
            in case os_chdir os (cwd s) (expand_env_in_str (environ s) path) of
                 Inl e \<Rightarrow> Inr ((True, Some (''cd failed: '' @ exc_str e)), s)
               | Inr d \<Rightarrow>
                   (case os_getcwd os d of
                      Inl e \<Rightarrow> Inr ((True, Some (''cd failed: '' @ exc_str e)), s\<lparr>cwd := d\<rparr>)
                    | Inr t \<Rightarrow> Inr ((True, Some t), s\<lparr>cwd := d\<rparr>)))
      else if command = ''pwd''
      then (case os_getcwd os (cwd s) of
              Inl e \<Rightarrow> Inr ((True, Some (''pwd failed: '' @ exc_str e)), s)
            | Inr t \<Rightarrow> Inr ((True, Some t), s))
      else if command = ''echo'' \<or> command = ''print''
      then Inr ((True, Some (expand_env_in_str (environ s) (get_str a ''str''))), s)
      else if command = ''ls''
      then (let path = (if get_str a ''str'' \<noteq> [] then get_str a ''str''
                        else (case a ''path'' of Some p \<Rightarrow> p | None \<Rightarrow> ''.''))
            in case os_listdir os (cwd s) (expand_env_in_str (environ s) path) of
                 Inl e \<Rightarrow> Inr ((True, Some (''ls failed: '' @ exc_str e)), s)
               | Inr entries \<Rightarrow> Inr ((True, Some (join [CHR 0x0A] (sort entries))), s))
      else if command = ''env''
      then Inr ((True, Some (join [CHR 0x0A] (map (\<lambda>(k, v). k @ ''='' @ v) (environ s)))), s)
      else if command = ''set''
      then (let raw = strip (get_str a ''str'') in
            if raw = [] then Inr ((True, Some ''usage: set VAR=VALUE''), s)
            else if CHR ''='' \<notin> set raw \<and> length (tokenize raw) < 2
            then Inr ((True, Some ''usage: set VAR=VALUE''), s)
            else
              (let name0 = (if CHR ''='' \<in> set raw then strip (fst (split_eq raw))
                            else hd (tokenize raw));
                   value0 = (if CHR ''='' \<in> set raw then strip (snd (split_eq raw))
                             else join '' '' (tl (tokenize raw)));
                   name = strip_prefix ''$'' (strip_prefix ''$env:'' name0);
                   v = (if 2 \<le> length value0 \<and> hd value0 = last value0
                           \<and> (hd value0 = CHR 0x22 \<or> hd value0 = CHR 0x27)
                        then butlast (tl value0) else value0)
               in case environ_refuses os name v of
                    Some e \<Rightarrow> Inr ((True, Some (''set failed: '' @ exc_str e)), s)
                  | None \<Rightarrow> Inr ((True, Some []), s\<lparr>environ := AList.update name v (environ s)\<rparr>)))
      else if command = ''get''
      then (let k = get_str a ''str'' in
            if k = [] then Inr ((True, Some []), s)
            else Inr ((True, Some (env_get (environ s)
                                     (strip_prefix ''$'' (strip_prefix ''$env:'' k)))), s))
      else Inr ((False, None), s))"

section \<open>Two commands of the registry (modules/commands.py)\<close>

text \<open>
  \<open>reverse\<close> reads a file or fetches a URL when asked to; both are parameters:
  the text read, or the exception raised.
\<close>

record cmd_io =
  read_text :: "string \<Rightarrow> pyexc + string"
  url_read :: "string \<Rightarrow> pyexc + string"

text \<open>\<open>a.get(k) or a.get(k')\<close>: the first of the two values that is a non-empty string.\<close>

definition get_or :: "args \<Rightarrow> string \<Rightarrow> string \<Rightarrow> string option" where
  "get_or a k k' =
     (case a k of
        Some v \<Rightarrow> if v \<noteq> [] then Some v else (case a k' of Some w \<Rightarrow> if w \<noteq> [] then Some w else None | None \<Rightarrow> None)
      | None \<Rightarrow> (case a k' of Some w \<Rightarrow> if w \<noteq> [] then Some w else None | None \<Rightarrow> None))"

definition reverse :: "cmd_io \<Rightarrow> args \<Rightarrow> pyexc + string" where
  "reverse io a =
     (case get_or a ''file'' ''f'' of
        Some file_path \<Rightarrow>
          (case read_text io file_path of
             Inl e \<Rightarrow> Inr (''reverse failed reading file: '' @ exc_str e)
           | Inr text \<Rightarrow> Inr (rev text))
      | None \<Rightarrow>
          (case get_or a ''url'' ''u'' of
             Some url \<Rightarrow>
               (case url_read io url of
                  Inl e \<Rightarrow> Inr (''reverse failed fetching url: '' @ exc_str e)
                | Inr text \<Rightarrow> Inr (rev text))
           | None \<Rightarrow> Inr (rev (get_str a ''str''))))"

definition upper :: "args \<Rightarrow> pyexc + string" where
  "upper a = Inr (map upper_char (get_str a ''str''))"

text \<open>
  \<open>echo\<close>, the command of the registry (the built-in of the same name is found
  first by the dispatcher): it expands variables with the same pattern, in the
  environment \<open>env\<close> of the moment it runs.
\<close>

definition echo_command :: "(string \<times> string) list \<Rightarrow> args \<Rightarrow> pyexc + string" where
  "echo_command env a = Inr (expand_env_in_str env (get_str a ''str''))"

section \<open>Chain resolution (modules/dispatch.py)\<close>

text \<open>\<open>xs[i]\<close> raises \<open>IndexError\<close> out of range.\<close>

definition index :: "'a list \<Rightarrow> nat \<Rightarrow> pyexc + 'a" where
  "index xs i = (if i < length xs then Inr (xs ! i)
                 else Inl (PyExc ''IndexError'' ''list index out of range''))"

text \<open>
  The test of the chain scan: a token that is a key of \<open>COMMANDS\<close> or a built-in name
  and that \<open>_was_quoted\<close> does not find quoted in the original text.
\<close>

definition recognized :: "registry \<Rightarrow> string option \<Rightarrow> string \<Rightarrow> bool" where
  "recognized reg original_text token \<longleftrightarrow>
     (map_of reg token \<noteq> None \<or> token \<in> set BUILTIN_NAMES) \<and> \<not> was_quoted token original_text"

text \<open>
  The scan \<open>for p_idx in range(len(positional))\<close>, run on \<open>positional[p_idx:]\<close>: at the
  first recognized token it collects the recognized tokens that follow without a
  gap and stops.
\<close>

fun scan_chain :: "(string \<Rightarrow> bool) \<Rightarrow> nat \<Rightarrow> string list \<Rightarrow> (nat \<times> string list) option" where
  "scan_chain known p_idx [] = None"
| "scan_chain known p_idx (t # ts) =
     (if known t then Some (p_idx, takeWhile known (t # ts))
      else scan_chain known (p_idx + 1) ts)"

text \<open>The first index \<open>idx\<close> in \<open>range(start, len(parts))\<close> with \<open>parts[idx] == token\<close>.\<close>

definition find_from :: "string list \<Rightarrow> string \<Rightarrow> nat \<Rightarrow> nat option" where
  "find_from parts token start =
     (case filter (\<lambda>idx. parts ! idx = token) [start ..< length parts] of
        [] \<Rightarrow> None
      | idx # idxs \<Rightarrow> Some idx)"

text \<open>
  The block that the resolver repeats for the innermost command, for each further
  element of the chain and for the outer command: a built-in is run by
  \<open>_run_builtin\<close>, any other name is looked up in \<open>COMMANDS\<close> and called.  The result
  \<open>None\<close> stands for the \<open>return False, None\<close> of the block (not handled, or no such
  command); an exception raised inside is passed on to the enclosing \<open>try\<close>.
\<close>

definition invoke ::
  "registry \<Rightarrow> os_model \<Rightarrow> session \<Rightarrow> string \<Rightarrow> args \<Rightarrow> pyexc + (string option \<times> session)" where
  "invoke reg os s name a =
     (if name \<in> set BUILTIN_NAMES
      then bindE (run_builtin reg os s name a)
             (\<lambda>((handled, out), s'). if \<not> handled then Inr (None, s') else Inr (out, s'))
      else (case map_of reg name of
              None \<Rightarrow> Inr (None, s)
            | Some c \<Rightarrow> bindE (func c a) (\<lambda>v. Inr (Some v, s))))"

text \<open>
  The loop \<open>for cmd_name in reversed(chain[:-1])\<close>, on the names in the order in
  which they are applied; an exception ends it with \<open>return False, None\<close>.
\<close>

fun apply_chain ::
  "registry \<Rightarrow> os_model \<Rightarrow> string list \<Rightarrow> session \<Rightarrow> string \<Rightarrow> string option \<times> session" where
  "apply_chain reg os [] s v = (Some v, s)"
| "apply_chain reg os (cmd_name # names) s v =
     (case invoke reg os s cmd_name [''str'' \<mapsto> v] of
        Inl e \<Rightarrow> (None, s)
      | Inr (None, s') \<Rightarrow> (None, s')
      | Inr (Some v', s') \<Rightarrow> apply_chain reg os names s' v')"

definition evaluate_composed_chain_if_any ::
  "registry \<Rightarrow> os_model \<Rightarrow> session \<Rightarrow> string \<Rightarrow> string list \<Rightarrow> string option
     \<Rightarrow> pyexc + ((bool \<times> string option) \<times> session)" where
  "evaluate_composed_chain_if_any reg os s command parts original_text =
     (let positional = extract_positional parts in
      if positional = [] then Inr ((False, None), s)
      else
        (let pos_idx = pos_indices parts in
         if pos_idx = [] then Inr ((False, None), s)
         else
           (case scan_chain (recognized reg original_text) 0 positional of
              None \<Rightarrow> Inr ((False, None), s)
            | Some (found_pos_idx, chain) \<Rightarrow>
                if chain = [] then Inr ((False, None), s)
                else
                  (let innermost = last chain in
                   bindE (index pos_idx found_pos_idx) (\<lambda>scan_from.
                   let start_idx = find_from parts innermost scan_from;
                       parts_for_inner =
                         (case start_idx of
                            None \<Rightarrow> innermost # drop (found_pos_idx + length chain) positional
                          | Some i \<Rightarrow> drop i parts)
                   in case bindE (index parts_for_inner 0) (\<lambda>inn_cmd.
                             invoke reg os s inn_cmd (build_args_from_parts parts_for_inner)) of
                        Inl e \<Rightarrow> Inr ((False, None), s)
                      | Inr (None, s1) \<Rightarrow> Inr ((False, None), s1)
                      | Inr (Some v0, s1) \<Rightarrow>
                          (case apply_chain reg os (rev (butlast chain)) s1 v0 of
                             (None, s2) \<Rightarrow> Inr ((False, None), s2)
                           | (Some v, s2) \<Rightarrow>
                               bindE (index pos_idx found_pos_idx) (\<lambda>start_pos.
                               let consumed = consumed_length parts_for_inner;
                                   end_idx = (case start_idx of
                                                Some i \<Rightarrow> i + consumed - 1
                                              | None \<Rightarrow> start_pos + consumed - 1)
                               in bindE (if found_pos_idx + length chain - 1 < length pos_idx
                                         then index pos_idx (found_pos_idx + length chain - 1)
                                         else Inr start_pos) (\<lambda>last_chain_pos_in_parts.
                                  let end_pos = max end_idx last_chain_pos_in_parts;
                                      new_parts = take start_pos parts @ [v]
                                                  @ drop (end_pos + 1) parts
                                  in case invoke reg os s2 command
                                            (build_args_from_parts new_parts) of
                                       Inl e \<Rightarrow> Inr ((False, None), s2)
                                     | Inr (None, s3) \<Rightarrow> Inr ((False, None), s3)
                                     | Inr (Some final, s3) \<Rightarrow>
                                         Inr ((True, Some final), s3)))))))))"

text \<open>\<open>_evaluate_inner_chain_if_any\<close>, the variant used for a batch subcommand.\<close>

definition evaluate_inner_chain_if_any ::
  "registry \<Rightarrow> os_model \<Rightarrow> session \<Rightarrow> string list \<Rightarrow> string option
     \<Rightarrow> pyexc + ((bool \<times> string option) \<times> session)" where
  "evaluate_inner_chain_if_any reg os s parts original_text =
     (let positional = extract_positional parts in
      if positional = [] then Inr ((False, None), s)
      else
        (let chain = takeWhile (recognized reg original_text) positional;
             idx = length chain
         in if chain = [] then Inr ((False, None), s)
            else
              (let innermost = last chain;
                   start_idx = find_from parts innermost 1;
                   parts_for_inner =
                     (case start_idx of
                        None \<Rightarrow> innermost # drop idx positional
                      | Some i \<Rightarrow> drop i parts)
               in case bindE (index parts_for_inner 0) (\<lambda>inn_cmd.
                         invoke reg os s inn_cmd (build_args_from_parts parts_for_inner)) of
                    Inl e \<Rightarrow> Inr ((False, None), s)
                  | Inr (None, s1) \<Rightarrow> Inr ((False, None), s1)
                  | Inr (Some v0, s1) \<Rightarrow>
                      (case apply_chain reg os (rev (butlast chain)) s1 v0 of
                         (None, s2) \<Rightarrow> Inr ((False, None), s2)
                       | (Some v, s2) \<Rightarrow> Inr ((True, Some v), s2)))))"

section \<open>Line dispatch (modules/dispatch.py, \<open>handle_input\<close>)\<close>

text \<open>
  The state \<open>handle_input\<close> works on: the session, the debug flag of the logger, what
  was written to standard output, the command lists handed to \<open>Popen\<close>, the tasks put
  on the master's task queue, and the result queue as the caller sees it: \<open>incoming\<close>
  lists what the successive reads will find (\<open>None\<close> for a read that finds nothing),
  \<open>get_calls\<close> records the reads made, with their timeout.
\<close>

datatype get_call = Get | Get_timeout nat

record shell =
  sess :: session
  suppressed :: bool
  printed :: "emitted list"
  popen_calls :: "string list list"
  task_queue :: "(string \<times> args) list"
  incoming :: "(nat \<times> string) option list"
  get_calls :: "get_call list"

text \<open>
  How a call ends: it returns, it raises, or it never returns because it waits on
  the result queue for a result that does not come.
\<close>

datatype outcome = Returned | Raised pyexc | Waiting

definition log :: "string \<Rightarrow> shell \<Rightarrow> shell" where
  "log msg sh = sh\<lparr>printed := printed sh @ [Log msg]\<rparr>"

definition print :: "string \<Rightarrow> shell \<Rightarrow> shell" where
  "print msg sh = sh\<lparr>printed := printed sh @ [Print msg]\<rparr>"

definition dbg :: "string \<Rightarrow> shell \<Rightarrow> shell" where
  "dbg msg sh = (if \<not> suppressed sh then log msg sh else sh)"

definition print_with_label :: "string \<Rightarrow> string \<Rightarrow> bool \<Rightarrow> shell \<Rightarrow> shell" where
  "print_with_label text label result_tag sh =
     (let prefix = ''[Worker '' @ label @ '']'' in
      if suppressed sh then print text sh
      else if result_tag then log text (log (prefix @ '' Ergebnis:'') sh)
      else fold (\<lambda>line. log (prefix @ '' '' @ line)) (splitlines text) sh)"

definition add_task :: "string \<Rightarrow> args \<Rightarrow> shell \<Rightarrow> shell" where
  "add_task command a sh = sh\<lparr>task_queue := task_queue sh @ [(command, a)]\<rparr>"

subsection \<open>modules/shell_executor.py\<close>

definition str_int :: "int \<Rightarrow> string" where
  "str_int i = (if i < 0 then ''-'' @ str_nat (nat (- i)) else str_nat (nat i))"

definition str_rc :: "int option \<Rightarrow> string" where
  "str_rc rc = (case rc of None \<Rightarrow> ''None'' | Some i \<Rightarrow> str_int i)"

definition run_stream ::
  "os_model \<Rightarrow> string list \<Rightarrow> nat option \<Rightarrow> shell \<Rightarrow> (int option \<times> pyexc option) \<times> shell" where
  "run_stream os cmd_list timeout sh =
     (case popen_wait os cmd_list timeout of
        (lines, rc, err) \<Rightarrow>
          ((rc, err), sh\<lparr>printed := printed sh @ lines,
                         popen_calls := popen_calls sh @ [cmd_list]\<rparr>))"

definition run_pwsh_stream ::
  "os_model \<Rightarrow> string \<Rightarrow> shell \<Rightarrow> (int option \<times> pyexc option) \<times> shell" where
  "run_pwsh_stream os cmd_str sh =
     (case (case which os ''pwsh'' of Some exe \<Rightarrow> Some exe | None \<Rightarrow> which os ''powershell'') of
        None \<Rightarrow> ((None, Some (PyExc ''RuntimeError'' ''pwsh/powershell not found'')), sh)
      | Some exe \<Rightarrow> run_stream os [exe, ''-NoProfile'', ''-Command'', cmd_str] (Some 300) sh)"

definition run_cmd_stream ::
  "os_model \<Rightarrow> string \<Rightarrow> shell \<Rightarrow> (int option \<times> pyexc option) \<times> shell" where
  "run_cmd_stream os cmd_str sh =
     run_stream os (case shlex_split cmd_str of Inr parts \<Rightarrow> parts | Inl e \<Rightarrow> [cmd_str]) None sh"

text \<open>
  The names bound in the module \<open>shell_executor\<close>: its five imports and its four
  functions.  Reading any other attribute of the module raises \<open>AttributeError\<close>.
\<close>

definition shell_executor_names :: "string list" where
  "shell_executor_names =
     [''subprocess'', ''threading'', ''shutil'', ''shlex'', ''sys'',
      ''_reader_thread'', ''_run_stream'', ''run_pwsh_stream'', ''run_cmd_stream'']"

definition shell_executor_getattr :: "string \<Rightarrow> pyexc + string" where
  "shell_executor_getattr name =
     (if name \<in> set shell_executor_names then Inr name
      else Inl (PyExc ''AttributeError''
                 (''module '' @ [CHR 0x27] @ ''modules.shell_executor'' @ [CHR 0x27]
                  @ '' has no attribute '' @ [CHR 0x27] @ name @ [CHR 0x27])))"

subsection \<open>Batch mode\<close>

text \<open>
  One pass of the loop \<open>for sub in subcmds\<close>, on the state and \<open>task_count\<close>.  Nothing
  in the loop body catches what the chain resolver or a built-in raises.
\<close>

definition batch_sub ::
  "registry \<Rightarrow> os_model \<Rightarrow> string option \<Rightarrow> shell \<times> nat \<Rightarrow> string \<Rightarrow> pyexc + (shell \<times> nat)" where
  "batch_sub reg os global_shell st sub =
     (case st of (sh, task_count) \<Rightarrow>
      let sub_parts = tokenize sub in
      if sub_parts = [] then Inr (sh, task_count)
      else
        (let own_shell = (global_shell = None \<and> hd sub_parts \<in> set [''!pwsh'', ''!cmd'']);
             shell_mode = (if own_shell then Some (hd sub_parts) else global_shell);
             cmd_parts_start = (if own_shell then 1 else 0 :: nat)
         in case shell_mode of
              Some mode \<Rightarrow>
                (let cmd_str = strip (join '' '' (drop cmd_parts_start sub_parts)) in
                 if cmd_str = []
                 then Inr (print_with_label (''Keine '' @ mode @ '' Anweisung angegeben.'')
                             ''shell'' False sh, task_count)
                 else (case (if mode = ''!pwsh'' then run_pwsh_stream os cmd_str sh
                             else run_cmd_stream os cmd_str sh) of
                         ((rc, Some err), sh1) \<Rightarrow>
                           Inr (print_with_label (''shell failed: '' @ exc_str err)
                                  ''shell'' False sh1, task_count)
                       | ((rc, None), sh1) \<Rightarrow>
                           Inr (dbg (mode @ '' exited: '' @ str_rc rc) sh1, task_count)))
            | None \<Rightarrow>
                bindE (evaluate_inner_chain_if_any reg os (sess sh) sub_parts (Some sub))
                  (\<lambda>((composed_inner_ok, inner_value), s1).
                     let sh1 = sh\<lparr>sess := s1\<rparr> in
                     if composed_inner_ok
                     then (let outer_cmd = hd sub_parts;
                               inner = (case inner_value of Some v \<Rightarrow> v | None \<Rightarrow> ''None'');
                               args_to_enqueue = [''str'' \<mapsto> inner]
                           in Inr (add_task outer_cmd args_to_enqueue
                                     (dbg (''Enqueue: '' @ colorize (outer_cmd @ '' '' @ inner)) sh1),
                                   task_count + 1))
                     else
                       (let a = build_args_from_parts sub_parts in
                        bindE (run_builtin reg os s1 (hd sub_parts) a)
                          (\<lambda>((handled, out), s2).
                             let sh2 = sh1\<lparr>sess := s2\<rparr> in
                             if handled
                             then (case out of
                                     Some text \<Rightarrow>
                                       if text \<noteq> []
                                       then Inr (print_with_label text ''sync'' False sh2, task_count)
                                       else Inr (sh2, task_count)
                                   | None \<Rightarrow> Inr (sh2, task_count))
                             else
                               (let args_expanded = expand_env_in_args (environ s2) a
                                in Inr (add_task (hd sub_parts) args_expanded
                                          (dbg (''Enqueue: '' @ colorize sub) sh2),
                                        task_count + 1)))))))"

fun batch_loop ::
  "registry \<Rightarrow> os_model \<Rightarrow> string option \<Rightarrow> shell \<times> nat \<Rightarrow> string list \<Rightarrow> pyexc + (shell \<times> nat)" where
  "batch_loop reg os global_shell st [] = Inr st"
| "batch_loop reg os global_shell st (sub # subcmds) =
     bindE (batch_sub reg os global_shell st sub)
       (\<lambda>st'. batch_loop reg os global_shell st' subcmds)"

text \<open>
  The loop \<open>for _ in range(task_count)\<close>: each pass makes one read of the result queue
  with a timeout of 10 seconds and reports either the result or the timeout.
\<close>

fun gather :: "nat \<Rightarrow> shell \<Rightarrow> shell" where
  "gather 0 sh = sh"
| "gather (Suc n) sh =
     (let sh1 = sh\<lparr>get_calls := get_calls sh @ [Get_timeout 10]\<rparr> in
      case incoming sh1 of
        Some (worker_id, result) # rest \<Rightarrow>
          gather n (print_with_label result (str_nat worker_id) True (sh1\<lparr>incoming := rest\<rparr>))
      | None # rest \<Rightarrow>
          gather n (dbg ''Keine Antwort vom Worker erhalten (Timeout).'' (sh1\<lparr>incoming := rest\<rparr>))
      | [] \<Rightarrow> gather n (dbg ''Keine Antwort vom Worker erhalten (Timeout).'' sh1))"

text \<open>
  The first part of the batch branch: the shell marker that applies to all
  subcommands, if the text behind the batch marker starts with one, and the
  subcommands, the non-blank pieces between the separators \<open>&\<close>.
\<close>

definition batch_global_shell :: "string \<Rightarrow> string option" where
  "batch_global_shell remainder =
     (let tokens = tokenize remainder in
      if tokens \<noteq> [] \<and> hd tokens \<in> set [''!pwsh'', ''!cmd''] then Some (hd tokens) else None)"

definition batch_subcommands :: "string \<Rightarrow> string list" where
  "batch_subcommands remainder =
     (let remainder_after_shell =
            (case batch_global_shell remainder of
               Some marker \<Rightarrow> strip (drop (length marker) remainder)
             | None \<Rightarrow> remainder)
      in filter (\<lambda>s. s \<noteq> []) (map strip (split_on CHR ''&'' remainder_after_shell)))"

definition multithread ::
  "registry \<Rightarrow> os_model \<Rightarrow> shell \<Rightarrow> string \<Rightarrow> string \<Rightarrow> outcome \<times> shell" where
  "multithread reg os sh command command_line =
     (let remainder = strip (drop (length command) command_line) in
      if remainder = [] then (Returned, dbg ''Keine Unterbefehle angegeben.'' sh)
      else
        (let global_shell = batch_global_shell remainder;
             subcmds = batch_subcommands remainder
         in if subcmds = [] then (Returned, dbg ''Keine Unterbefehle angegeben.'' sh)
            else (case batch_loop reg os global_shell (sh, 0) subcmds of
                    Inl e \<Rightarrow> (Raised e, sh)
                  | Inr (sh1, task_count) \<Rightarrow>
                      (Returned,
                       gather task_count
                         (dbg (''Added '' @ str_nat task_count @ '' tasks (multithread)'') sh1)))))"

subsection \<open>\<open>handle_input\<close>\<close>

text \<open>
  The last part of \<open>handle_input\<close>: the attempt at a composed chain, then the
  single-command path, a built-in or a task for the workers followed by one read
  of the result queue without timeout.
\<close>

definition dispatch_single ::
  "registry \<Rightarrow> os_model \<Rightarrow> shell \<Rightarrow> string \<Rightarrow> string list \<Rightarrow> string \<Rightarrow> outcome \<times> shell" where
  "dispatch_single reg os sh command parts_all command_line =
     (case evaluate_composed_chain_if_any reg os (sess sh) command parts_all
             (Some command_line) of
        Inl e \<Rightarrow> (Raised e, sh)
      | Inr ((True, composed_result), s1) \<Rightarrow>
          (Returned,
           print_with_label
             (case composed_result of Some r \<Rightarrow> r | None \<Rightarrow> ''None'')
             ''sync'' True (sh\<lparr>sess := s1\<rparr>))
      | Inr ((False, composed_result), s1) \<Rightarrow>
          (let sh1 = sh\<lparr>sess := s1\<rparr>;
               a = build_args_from_parts parts_all
           in case run_builtin reg os s1 command a of
                Inl e \<Rightarrow> (Raised e, sh1)
              | Inr ((True, out), s2) \<Rightarrow>
                  (Returned,
                   case out of
                     Some text \<Rightarrow>
                       if text \<noteq> []
                       then print_with_label text ''sync'' False (sh1\<lparr>sess := s2\<rparr>)
                       else sh1\<lparr>sess := s2\<rparr>
                   | None \<Rightarrow> sh1\<lparr>sess := s2\<rparr>)
              | Inr ((False, out), s2) \<Rightarrow>
                  (let args_expanded = expand_env_in_args (environ s2) a;
                       sh2 = add_task command args_expanded
                               (dbg (''Enqueue: '' @ colorize command_line)
                                  (sh1\<lparr>sess := s2\<rparr>));
                       sh3 = sh2\<lparr>get_calls := get_calls sh2 @ [Get]\<rparr>
                   in case incoming sh3 of
                        Some (worker_id, result) # rest \<Rightarrow>
                          (Returned,
                           if suppressed sh3
                           then print result (sh3\<lparr>incoming := rest\<rparr>)
                           else log result
                                  (log (''[Worker '' @ str_nat worker_id
                                        @ ''] Ergebnis:'')
                                     (sh3\<lparr>incoming := rest\<rparr>)))
                      | _ \<Rightarrow> (Waiting, sh3))))"

definition handle_input :: "registry \<Rightarrow> os_model \<Rightarrow> shell \<Rightarrow> string \<Rightarrow> outcome \<times> shell" where
  "handle_input reg os sh0 line =
     (if line = [] \<or> strip line = [] then (Returned, sh0)
      else
        (let expanded_line = expand_aliases_line (ALIASES (sess sh0)) line 5;
             sh = (if expanded_line \<noteq> line
                   then dbg (''Alias expanded: '' @ line @ '' -> '' @ expanded_line) sh0
                   else sh0);
             command_line = expanded_line;
             cl = lower (strip command_line)
         in if cl \<in> set [''!suppressdebug'', ''!suppress-debug'']
            then (Returned, (print ''Debug suppressed for this session.'' sh)\<lparr>suppressed := True\<rparr>)
            else if cl \<in> set [''!resumedebug'', ''!enabledebug'', ''!unsuppressdebug'']
            then (Returned, print ''Debug resumed for this session.'' (sh\<lparr>suppressed := False\<rparr>))
            else
              (let parts_all = tokenize command_line in
               if parts_all = [] then (Returned, sh)
               else
                 (let command = hd parts_all in
                  if command = ''!pwsh''
                  then (let raw = strip (drop (length command) command_line) in
                        if raw = [] then (Returned, dbg ''Keine pwsh Anweisung angegeben.'' sh)
                        else (case run_pwsh_stream os raw sh of
                                ((rc, Some err), sh1) \<Rightarrow>
                                  (Returned, print_with_label (''pwsh failed: '' @ exc_str err)
                                               ''shell'' False sh1)
                              | ((rc, None), sh1) \<Rightarrow>
                                  (Returned, dbg (''pwsh exited: '' @ str_rc rc) sh1)))
                  else if command = ''!cmd''
                  then (let cmd_str = strip (drop (length command) command_line) in
                        if cmd_str = []
                        then (Returned, print_with_label ''Keine cmd-Anweisung angegeben.''
                                          ''shell'' False sh)
                        else (case shell_executor_getattr ''run_cmd'' of
                                Inl e \<Rightarrow> (Raised e, sh)
                              | Inr f \<Rightarrow>
                                  (Raised (PyExc ''TypeError'' (f @ '' is not run_cmd'')), sh)))
                  else if command \<in> set [''!multithread'', ''!mt'']
                  then multithread reg os sh command command_line
                  else
                    dispatch_single reg os sh command parts_all command_line))))"

section \<open>A small instance\<close>

text \<open>
  An operating system that accepts every request and has nothing to list or run,
  a registry holding \<open>reverse\<close>, \<open>upper\<close> and \<open>echo\<close>, and a fresh shell whose environment
  sets \<open>HOME\<close> and whose result queue will deliver two results: enough to run the
  dispatcher on concrete lines.
\<close>

definition demo_os :: os_model where
  "demo_os =
     \<lparr>home = ''/root'', os_chdir = (\<lambda>c p. Inr p), os_getcwd = (\<lambda>c. Inr c),
      os_listdir = (\<lambda>c p. Inr []), environ_refuses = (\<lambda>n v. None),
      which = (\<lambda>n. None), popen_wait = (\<lambda>c t. ([], Some 0, None))\<rparr>"

definition demo_io :: cmd_io where
  "demo_io =
     \<lparr>read_text = (\<lambda>p. Inl (PyExc ''FileNotFoundError'' p)),
      url_read = (\<lambda>u. Inl (PyExc ''URLError'' u))\<rparr>"

definition demo_registry :: registry where
  "demo_registry =
     [(''reverse'', \<lparr>func = reverse demo_io, doc = None\<rparr>),
      (''upper'', \<lparr>func = upper, doc = None\<rparr>),
      (''echo'', \<lparr>func = echo_command [(''HOME'', ''/root'')], doc = None\<rparr>)]"

definition demo_shell :: shell where
  "demo_shell =
     \<lparr>sess = \<lparr>ALIASES = [], environ = [(''HOME'', ''/root'')], cwd = ''/''\<rparr>,
      suppressed = False, printed = [], popen_calls = [], task_queue = [],
      incoming = [Some (0, ''r0''), Some (1, ''r1'')], get_calls = []\<rparr>"

section \<open>Properties of the worker\<close>

lemma result_queue_worker_finally:
  "result_queue (worker_finally wid (Some r) p) = result_queue p @ [(wid, r)]"
  by (simp add: worker_finally_def task_done_def Let_def)

lemma worker_try_text:
  "fst (worker_try reg wid p cmd a) =
     (case map_of reg cmd of
        None \<Rightarrow> ''Unbekanntes Kommando: '' @ cmd
      | Some c \<Rightarrow> (case func c a of
                    Inl e \<Rightarrow> ''Fehler bei '' @ cmd @ '': '' @ exc_str e
                  | Inr r \<Rightarrow> r))"
  by (simp add: worker_try_def split: option.splits sum.splits)

lemma result_queue_worker_try:
  "result_queue (snd (worker_try reg wid p cmd a)) = result_queue p"
  by (simp add: worker_try_def split: option.splits sum.splits)

lemma run_tasks:
  "run reg wid result p (map Some ts) = (st, p') \<Longrightarrow>
     st = Blocked \<and>
     result_queue p' =
       result_queue p @
       map (\<lambda>(cmd, a).
              (wid, case map_of reg cmd of
                      None \<Rightarrow> ''Unbekanntes Kommando: '' @ cmd
                    | Some c \<Rightarrow> (case func c a of
                                  Inl e \<Rightarrow> ''Fehler bei '' @ cmd @ '': '' @ exc_str e
                                | Inr r \<Rightarrow> r))) ts"
proof (induction ts arbitrary: result p)
  case Nil
  then show ?case by simp
next
  case (Cons t ts)
  obtain cmd a where t: "t = (cmd, a)" by (cases t)
  obtain r p1 where w: "worker_try reg wid p cmd a = (r, p1)"
    by (cases "worker_try reg wid p cmd a")
  let ?p2 = "worker_finally wid (Some r) p1"
  from Cons.prems t w have "run reg wid (Some r) ?p2 (map Some ts) = (st, p')"
    by simp
  note ih = Cons.IH [OF this]
  have p1: "result_queue p1 = result_queue p"
    using result_queue_worker_try [of reg wid p cmd a] w by simp
  have r: "r = (case map_of reg cmd of
                  None \<Rightarrow> ''Unbekanntes Kommando: '' @ cmd
                | Some c \<Rightarrow> (case func c a of
                              Inl e \<Rightarrow> ''Fehler bei '' @ cmd @ '': '' @ exc_str e
                            | Inr r \<Rightarrow> r))"
    using worker_try_text [of reg wid p cmd a] w by simp
  have q2: "result_queue ?p2 = result_queue p @ [(wid, r)]"
    by (simp only: result_queue_worker_finally p1)
  from ih have "st = Blocked" by (rule conjunct1)
  moreover from ih have "result_queue p' = result_queue ?p2 @
       map (\<lambda>(cmd, a).
              (wid, case map_of reg cmd of
                      None \<Rightarrow> ''Unbekanntes Kommando: '' @ cmd
                    | Some c \<Rightarrow> (case func c a of
                                  Inl e \<Rightarrow> ''Fehler bei '' @ cmd @ '': '' @ exc_str e
                                | Inr r \<Rightarrow> r))) ts"
    by (rule conjunct2)
  ultimately show ?case
    unfolding q2 t using r by simp
qed

text \<open>
  Claim C1.  For every list of tasks \<open>(command, args)\<close> that a worker takes from the
  task queue, whatever was published before and whatever the commands do, the
  worker appends exactly one pair \<open>(worker id, text)\<close> per task to the result queue,
  in order, and is afterwards still running (blocked on the queue, not exited).
  The text is the unknown-command text when the name is not in the registry, the
  error text when the command function raises, and the function's result otherwise;
  no outcome of a command ends the loop.
\<close>

theorem worker_one_result_per_task:
  "fst (run reg wid result p (map Some ts)) = Blocked \<and>
   result_queue (snd (run reg wid result p (map Some ts))) =
     result_queue p @
     map (\<lambda>(cmd, a).
            (wid, case map_of reg cmd of
                    None \<Rightarrow> ''Unbekanntes Kommando: '' @ cmd
                  | Some c \<Rightarrow> (case func c a of
                                Inl e \<Rightarrow> ''Fehler bei '' @ cmd @ '': '' @ exc_str e
                              | Inr r \<Rightarrow> r))) ts"
proof -
  obtain st p' where r: "run reg wid result p (map Some ts) = (st, p')"
    by (cases "run reg wid result p (map Some ts)")
  from run_tasks [OF r] show ?thesis
    unfolding r by simp
qed

section \<open>Properties of the container\<close>

lemma length_big_endian: "length (big_endian k n) = k"
  by (induction k arbitrary: n) simp_all

lemma from_bytes_snoc: "from_bytes (bs @ [b]) = from_bytes bs * 256 + unat b"
  by (simp add: from_bytes_def)

lemma from_bytes_big_endian: "from_bytes (big_endian k n) = n mod 256 ^ k"
proof (induction k arbitrary: n)
  case 0
  show ?case by (simp add: from_bytes_def)
next
  case (Suc k)
  have b: "unat (of_nat (n mod 256) :: byte) = n mod 256"
    by (simp add: unat_of_nat)
  have "from_bytes (big_endian (Suc k) n) = (n div 256 mod 256 ^ k) * 256 + n mod 256"
    by (simp only: big_endian.simps from_bytes_snoc Suc.IH b)
  also have "\<dots> = n mod 256 ^ Suc k"
    by (simp add: mod_mult2_eq)
  finally show ?case .
qed

lemma from_bytes_to_bytes: "to_bytes n k = Inr bs \<Longrightarrow> from_bytes bs = n \<and> length bs = k"
  by (auto simp: to_bytes_def from_bytes_big_endian length_big_endian split: if_splits)

lemma load_le_framed:
  assumes "length len_bytes = 8" and "from_bytes len_bytes = length manifest_bytes"
  shows "load_le lib le_path (Some (LE_MAGIC @ len_bytes @ manifest_bytes @ compressed)) =
     (case utf8_json_loads lib manifest_bytes of
        Inl e \<Rightarrow> Inl (PyExc ''ValueError''
                    (''Invalid manifest in '' @ le_path @ '': '' @ exc_str e))
      | Inr manifest \<Rightarrow>
          (case gzip_decompress lib compressed of
             Inl e \<Rightarrow> Inl (PyExc ''ValueError''
                         (''Invalid payload (not gzip?) in '' @ le_path @ '': '' @ exc_str e))
           | Inr script_bytes \<Rightarrow>
               Inr (manifest, script_bytes, decode_utf8_replace lib script_bytes)))"
  using assms by (simp add: load_le_def file_read_def Let_def LE_MAGIC_def split: sum.splits)

text \<open>
  Claim C3.  Whenever the encoder produces a container for a script (of any
  content, empty or not), decoding that container succeeds and yields exactly the
  script's bytes, provided the library behaves as documented on this input:
  decompressing the compressed script gives the script back, and the manifest text
  that was written parses.
\<close>

theorem container_round_trip:
  assumes "compile_latin lib script_abspath script_bytes now py_version = Inr file"
    and "gzip_decompress lib (gzip_compress lib script_bytes) = Inr script_bytes"
    and "\<And>m mb. json_dumps_utf8 lib m = Inr mb \<Longrightarrow> \<exists>j. utf8_json_loads lib mb = Inr j"
  shows "\<exists>j. load_le lib le_path (Some file) =
               Inr (j, script_bytes, decode_utf8_replace lib script_bytes)"
proof -
  from assms(1) obtain m mb lb where
    d: "json_dumps_utf8 lib m = Inr mb" and
    l: "to_bytes (length mb) 8 = Inr lb" and
    f: "file = LE_MAGIC @ lb @ mb @ gzip_compress lib script_bytes"
    by (auto simp: compile_latin_def Let_def split: sum.splits)
  from assms(3) [OF d] obtain j where j: "utf8_json_loads lib mb = Inr j" ..
  from from_bytes_to_bytes [OF l] have "length lb = 8" "from_bytes lb = length mb"
    by simp_all
  from load_le_framed [OF this, of lib le_path "gzip_compress lib script_bytes"]
  show ?thesis
    by (simp add: f j assms(2))
qed

lemma big_endian_8:
  "big_endian 8 n =
     big_endian 0 (n div 256 div 256 div 256 div 256 div 256 div 256 div 256 div 256) @
     [of_nat (n div 256 div 256 div 256 div 256 div 256 div 256 div 256 mod 256),
      of_nat (n div 256 div 256 div 256 div 256 div 256 div 256 mod 256),
      of_nat (n div 256 div 256 div 256 div 256 div 256 mod 256),
      of_nat (n div 256 div 256 div 256 div 256 mod 256),
      of_nat (n div 256 div 256 div 256 mod 256),
      of_nat (n div 256 div 256 mod 256),
      of_nat (n div 256 mod 256),
      of_nat (n mod 256)]"
proof -
  have e8: "(8::nat) = Suc (Suc (Suc (Suc (Suc (Suc (Suc (Suc 0)))))))" by simp
  show ?thesis
    unfolding e8 by (simp only: big_endian.simps append_Nil append_Cons append_assoc)
qed

lemma to_bytes_small: "n < 256 \<Longrightarrow> to_bytes n 8 = Inr [0, 0, 0, 0, 0, 0, 0, of_nat n]"
  by (simp add: to_bytes_def big_endian_8)

theorem container_round_trip_witness:
  "compile_latin demo_lib ''/s/hi.latin'' [0x68, 0x69] 0 ''3.11'' =
     Inr (LE_MAGIC @ [0, 0, 0, 0, 0, 0, 0, 10] @ map of_char ''{hi.latin}'' @ [0x1F, 0x8B, 0x68, 0x69]) \<and>
   (\<exists>j. load_le demo_lib ''/s/hi.le''
          (Some (LE_MAGIC @ [0, 0, 0, 0, 0, 0, 0, 10] @ map of_char ''{hi.latin}''
                 @ [0x1F, 0x8B, 0x68, 0x69])) =
        Inr (j, [0x68, 0x69], ''hi''))"
proof -
  have c: "compile_latin demo_lib ''/s/hi.latin'' [0x68, 0x69] 0 ''3.11'' =
     Inr (LE_MAGIC @ [0, 0, 0, 0, 0, 0, 0, 10] @ map of_char ''{hi.latin}'' @ [0x1F, 0x8B, 0x68, 0x69])"
    by (simp add: compile_latin_def demo_lib_def Let_def lower_def lower_char_def to_bytes_small)
  have g: "gzip_decompress demo_lib (gzip_compress demo_lib [0x68, 0x69]) = Inr [0x68, 0x69]"
    by (simp add: demo_lib_def)
  have j: "\<And>m mb. json_dumps_utf8 demo_lib m = Inr mb \<Longrightarrow> \<exists>j. utf8_json_loads demo_lib mb = Inr j"
    by (auto simp: demo_lib_def)
  have "map (\<lambda>b. if b < 0x80 then char_of (unat b) else CHR 0x3F) [0x68, 0x69 :: byte] = ''hi''"
    by code_simp
  then have t: "decode_utf8_replace demo_lib [0x68, 0x69] = ''hi''"
    by (simp add: demo_lib_def)
  from container_round_trip [OF c g j, where le_path = "''/s/hi.le''"] c t show ?thesis
    by simp
qed

lemma file_read_data:
  "file_read lib n f = Inr (bs, r) \<Longrightarrow> bs = take n f \<and> r = drop n f"
  by (auto simp: file_read_def split: if_splits)

text \<open>
  Claim C7, as the code has it.  For a container file that exists, decoding raises
  exactly when the first 7 bytes are not the magic, or the read of the manifest
  (as many bytes as the 8-byte length field says) is refused, or the manifest does
  not parse, or the rest of the file does not decompress.  The read is refused only
  when the length field asks for more bytes than the file still holds, with
  \<open>OverflowError\<close> for a length of \<open>2 ^ 63\<close> or more and with \<open>MemoryError\<close> when no buffer
  of that length can be allocated; this exception reaches the caller as it is,
  every other failure is a \<open>ValueError\<close>.  When all the checks pass, decoding returns
  the parsed manifest, the decompressed bytes and their lossy text decoding: the
  last step adds no failure case.
\<close>

theorem load_le_fails_exactly_when_unreadable:
  "((\<exists>e. load_le lib le_path (Some f) = Inl e) \<longleftrightarrow>
      take 7 f \<noteq> LE_MAGIC \<or>
      (\<exists>e. file_read lib (from_bytes (take 8 (drop 7 f))) (drop 15 f) = Inl e) \<or>
      (\<exists>e. utf8_json_loads lib (take (from_bytes (take 8 (drop 7 f))) (drop 15 f)) = Inl e) \<or>
      (\<exists>e. gzip_decompress lib (drop (from_bytes (take 8 (drop 7 f)) + 15) f) = Inl e)) \<and>
   (\<forall>e. file_read lib (from_bytes (take 8 (drop 7 f))) (drop 15 f) = Inl e \<longrightarrow>
        length (drop 15 f) < from_bytes (take 8 (drop 7 f)) \<and>
        (if 2 ^ 63 \<le> from_bytes (take 8 (drop 7 f)) then exc_class e = ''OverflowError''
         else exc_class e = ''MemoryError'' \<and> no_memory lib (from_bytes (take 8 (drop 7 f))))) \<and>
   (\<forall>e. load_le lib le_path (Some f) = Inl e \<longrightarrow>
        exc_class e = ''ValueError'' \<or>
        take 7 f = LE_MAGIC \<and>
        file_read lib (from_bytes (take 8 (drop 7 f))) (drop 15 f) = Inl e) \<and>
   (\<forall>m b. take 7 f = LE_MAGIC \<and>
          (\<forall>e. file_read lib (from_bytes (take 8 (drop 7 f))) (drop 15 f) \<noteq> Inl e) \<and>
          utf8_json_loads lib (take (from_bytes (take 8 (drop 7 f))) (drop 15 f)) = Inr m \<and>
          gzip_decompress lib (drop (from_bytes (take 8 (drop 7 f)) + 15) f) = Inr b \<longrightarrow>
          load_le lib le_path (Some f) = Inr (m, b, decode_utf8_replace lib b))"
proof -
  define n where "n = from_bytes (take 8 (drop 7 f))"
  have len: "length LE_MAGIC = 7" by (simp add: LE_MAGIC_def)
  have d: "drop 8 (drop 7 f) = drop 15 f" by simp
  have l: "load_le lib le_path (Some f) =
     (if take 7 f \<noteq> LE_MAGIC
      then Inl (PyExc ''ValueError'' ''Not a LUW binary (.le) or unsupported version'')
      else case file_read lib n (drop 15 f) of
             Inl e \<Rightarrow> Inl e
           | Inr (manifest_bytes, f3) \<Rightarrow>
               (case utf8_json_loads lib manifest_bytes of
                  Inl e \<Rightarrow> Inl (PyExc ''ValueError''
                              (''Invalid manifest in '' @ le_path @ '': '' @ exc_str e))
                | Inr manifest \<Rightarrow>
                    (case gzip_decompress lib f3 of
                       Inl e \<Rightarrow> Inl (PyExc ''ValueError''
                                   (''Invalid payload (not gzip?) in '' @ le_path @ '': ''
                                    @ exc_str e))
                     | Inr script_bytes \<Rightarrow>
                         Inr (manifest, script_bytes, decode_utf8_replace lib script_bytes))))"
    by (simp add: load_le_def Let_def len d n_def split: sum.splits prod.splits)
  have r: "(\<exists>e. file_read lib n (drop 15 f) = Inl e) \<or>
           file_read lib n (drop 15 f) = Inr (take n (drop 15 f), drop (n + 15) f)"
    by (cases "file_read lib n (drop 15 f)") (auto dest: file_read_data)
  have 1: "(\<exists>e. load_le lib le_path (Some f) = Inl e) \<longleftrightarrow>
      take 7 f \<noteq> LE_MAGIC \<or>
      (\<exists>e. file_read lib n (drop 15 f) = Inl e) \<or>
      (\<exists>e. utf8_json_loads lib (take n (drop 15 f)) = Inl e) \<or>
      (\<exists>e. gzip_decompress lib (drop (n + 15) f) = Inl e)"
    using r by (auto simp: l split: sum.splits)
  have 2: "\<forall>e. file_read lib n (drop 15 f) = Inl e \<longrightarrow>
        length (drop 15 f) < n \<and>
        (if 2 ^ 63 \<le> n then exc_class e = ''OverflowError''
         else exc_class e = ''MemoryError'' \<and> no_memory lib n)"
    by (auto simp: file_read_def split: if_splits)
  have 3: "\<forall>e. load_le lib le_path (Some f) = Inl e \<longrightarrow>
        exc_class e = ''ValueError'' \<or>
        take 7 f = LE_MAGIC \<and> file_read lib n (drop 15 f) = Inl e"
    by (auto simp: l split: sum.splits if_splits)
  have 4: "\<forall>m b. take 7 f = LE_MAGIC \<and>
          (\<forall>e. file_read lib n (drop 15 f) \<noteq> Inl e) \<and>
          utf8_json_loads lib (take n (drop 15 f)) = Inr m \<and>
          gzip_decompress lib (drop (n + 15) f) = Inr b \<longrightarrow>
          load_le lib le_path (Some f) = Inr (m, b, decode_utf8_replace lib b)"
    using r by (auto simp: l split: sum.splits)
  from 1 2 3 4 show ?thesis
    unfolding n_def by blast
qed

theorem load_le_fails_exactly_when_unreadable_witness:
  "(\<exists>e. load_le demo_lib ''x.le'' (Some [0x4C, 0x55, 0x57, 0x45, 0x58, 0x45, 0x32]) = Inl e) \<and>
   load_le demo_lib ''x.le''
     (Some ([0x4C, 0x55, 0x57, 0x45, 0x58, 0x45, 0x31, 0, 0, 0, 0, 0, 0, 0, 2, 0x7B, 0x7D,
             0x1F, 0x8B, 0x68, 0x69])) =
     Inr ([0x7B, 0x7D], [0x68, 0x69], ''hi'') \<and>
   (\<exists>e. load_le demo_lib ''x.le''
     (Some ([0x4C, 0x55, 0x57, 0x45, 0x58, 0x45, 0x31, 0x40, 0, 0, 0, 0, 0, 0, 0, 0x7B, 0x7D,
             0x1F, 0x8B, 0x68, 0x69])) = Inl e \<and> exc_class e = ''MemoryError'')"
proof -
  have a: "take 7 [0x4C, 0x55, 0x57, 0x45, 0x58, 0x45, 0x32 :: byte] \<noteq> LE_MAGIC"
    by (simp add: LE_MAGIC_def)
  let ?g = "[0x4C, 0x55, 0x57, 0x45, 0x58, 0x45, 0x31, 0, 0, 0, 0, 0, 0, 0, 2, 0x7B, 0x7D,
             0x1F, 0x8B, 0x68, 0x69 :: byte]"
  let ?h = "[0x4C, 0x55, 0x57, 0x45, 0x58, 0x45, 0x31, 0x40, 0, 0, 0, 0, 0, 0, 0, 0x7B, 0x7D,
             0x1F, 0x8B, 0x68, 0x69 :: byte]"
  have n: "from_bytes (take 8 (drop 7 ?g)) = 2"
    by (simp add: from_bytes_def)
  have b: "take 7 ?g = LE_MAGIC \<and>
      (\<forall>e. file_read demo_lib (from_bytes (take 8 (drop 7 ?g))) (drop 15 ?g) \<noteq> Inl e) \<and>
      utf8_json_loads demo_lib (take (from_bytes (take 8 (drop 7 ?g))) (drop 15 ?g)) = Inr [0x7B, 0x7D] \<and>
      gzip_decompress demo_lib (drop (from_bytes (take 8 (drop 7 ?g)) + 15) ?g) = Inr [0x68, 0x69]"
    unfolding n by (simp add: LE_MAGIC_def demo_lib_def file_read_def)
  have "map (\<lambda>b. if b < 0x80 then char_of (unat b) else CHR 0x3F) [0x68, 0x69 :: byte] = ''hi''"
    by code_simp
  then have t: "decode_utf8_replace demo_lib [0x68, 0x69] = ''hi''"
    by (simp add: demo_lib_def)
  have k: "from_bytes (take 8 (drop 7 ?h)) = 4611686018427387904"
    by (simp add: from_bytes_def)
  have c: "file_read demo_lib (from_bytes (take 8 (drop 7 ?h))) (drop 15 ?h) =
             Inl (PyExc ''MemoryError'' [])"
    unfolding k by (simp add: file_read_def demo_lib_def)
  from load_le_fails_exactly_when_unreadable
         [of demo_lib "''x.le''" "[0x4C, 0x55, 0x57, 0x45, 0x58, 0x45, 0x32]"] a
  have 1: "\<exists>e. load_le demo_lib ''x.le'' (Some [0x4C, 0x55, 0x57, 0x45, 0x58, 0x45, 0x32]) = Inl e"
    by blast
  from load_le_fails_exactly_when_unreadable [of demo_lib "''x.le''" ?g] b
  have 2: "load_le demo_lib ''x.le'' (Some ?g) =
             Inr ([0x7B, 0x7D], [0x68, 0x69], decode_utf8_replace demo_lib [0x68, 0x69])"
    by blast
  have c2: "file_read demo_lib 4611686018427387904 [0x7B, 0x7D, 0x1F, 0x8B, 0x68, 0x69] =
              Inl (PyExc ''MemoryError'' [])"
    by (simp add: file_read_def demo_lib_def)
  from load_le_fails_exactly_when_unreadable [of demo_lib "''x.le''" ?h] c
  have "\<exists>e. load_le demo_lib ''x.le'' (Some ?h) = Inl e"
    by blast
  moreover have "load_le demo_lib ''x.le'' (Some ?h) = Inl (PyExc ''MemoryError'' [])"
    unfolding load_le_def by (simp add: c2 LE_MAGIC_def Let_def from_bytes_def)
  ultimately have 3: "\<exists>e. load_le demo_lib ''x.le'' (Some ?h) = Inl e \<and> exc_class e = ''MemoryError''"
    by simp
  from 1 2 3 t show ?thesis
    by simp
qed

text \<open>
  The claim as stated, with its three causes, fails on a small file whose length
  field is \<open>2 ^ 64 - 1\<close>: the magic matches, the two bytes that follow the length
  field parse as a manifest and the empty rest decompresses, yet decoding raises,
  and what it raises is the \<open>OverflowError\<close> of the read.
\<close>

theorem load_le_huge_length_counterexample:
  "take 7 [0x4C, 0x55, 0x57, 0x45, 0x58, 0x45, 0x31,
           0xFF, 0xFF, 0xFF, 0xFF, 0xFF, 0xFF, 0xFF, 0xFF, 0x7B, 0x7D :: byte] = LE_MAGIC \<and>
   from_bytes (take 8 (drop 7 [0x4C, 0x55, 0x57, 0x45, 0x58, 0x45, 0x31,
           0xFF, 0xFF, 0xFF, 0xFF, 0xFF, 0xFF, 0xFF, 0xFF, 0x7B, 0x7D :: byte])) = 2 ^ 64 - 1 \<and>
   utf8_json_loads demo_lib
     (take (2 ^ 64 - 1) (drop 15 [0x4C, 0x55, 0x57, 0x45, 0x58, 0x45, 0x31,
           0xFF, 0xFF, 0xFF, 0xFF, 0xFF, 0xFF, 0xFF, 0xFF, 0x7B, 0x7D :: byte])) = Inr [0x7B, 0x7D] \<and>
   gzip_decompress demo_lib
     (drop (2 ^ 64 - 1 + 15) [0x4C, 0x55, 0x57, 0x45, 0x58, 0x45, 0x31,
           0xFF, 0xFF, 0xFF, 0xFF, 0xFF, 0xFF, 0xFF, 0xFF, 0x7B, 0x7D :: byte]) = Inr [] \<and>
   load_le demo_lib ''x.le''
     (Some [0x4C, 0x55, 0x57, 0x45, 0x58, 0x45, 0x31,
            0xFF, 0xFF, 0xFF, 0xFF, 0xFF, 0xFF, 0xFF, 0xFF, 0x7B, 0x7D]) =
     Inl (PyExc ''OverflowError'' ''cannot fit 'int' into an index-sized integer'')"
proof -
  let ?f = "[0x4C, 0x55, 0x57, 0x45, 0x58, 0x45, 0x31,
             0xFF, 0xFF, 0xFF, 0xFF, 0xFF, 0xFF, 0xFF, 0xFF, 0x7B, 0x7D :: byte]"
  have p: "(2::nat) ^ 64 - 1 = 18446744073709551615"
    by simp
  have n: "from_bytes (take 8 (drop 7 ?f)) = 18446744073709551615"
    by (simp add: from_bytes_def)
  have 1: "take 7 ?f = LE_MAGIC"
    by (simp add: LE_MAGIC_def)
  have 2: "utf8_json_loads demo_lib (take 18446744073709551615 (drop 15 ?f)) = Inr [0x7B, 0x7D]"
    by (simp add: demo_lib_def)
  have 3: "gzip_decompress demo_lib (drop (18446744073709551615 + 15) ?f) = Inr []"
    by (simp add: demo_lib_def)
  have 4: "load_le demo_lib ''x.le'' (Some ?f) =
             Inl (PyExc ''OverflowError'' ''cannot fit 'int' into an index-sized integer'')"
    unfolding load_le_def by (simp add: n [simplified] LE_MAGIC_def Let_def file_read_def from_bytes_def)
  from 1 n 2 3 4 show ?thesis
    unfolding p by simp
qed

section \<open>Properties of alias expansion\<close>

lemmas token_eval =
  tokenize_def shlex_split_def shlex_whitespace_def shlex_quote_def shlex_escape_def emit_def
  split_ws_def py_space_def strip_def strip_chars_def

lemma expand_loop_stops:
  "expand_loop al m d l = (d', l') \<Longrightarrow> d' < m \<Longrightarrow>
   (case tokenize l' of [] \<Rightarrow> True | first # remainder \<Rightarrow> map_of al first = None)"
proof (induction al m d l rule: expand_loop.induct)
  case (1 al max_depth depth new_line)
  show ?case
  proof (cases "depth < max_depth")
    case False
    with "1.prems" show ?thesis
      by (simp add: expand_loop.simps)
  next
    case True
    show ?thesis
    proof (cases "tokenize new_line")
      case Nil
      with True "1.prems" show ?thesis
        by (simp add: expand_loop.simps)
    next
      case (Cons first remainder)
      show ?thesis
      proof (cases "map_of al first")
        case None
        with True Cons "1.prems" show ?thesis
          by (simp add: expand_loop.simps)
      next
        case (Some expansion)
        with True Cons "1.prems"(1)
        have "expand_loop al max_depth (depth + 1)
                (if remainder \<noteq> [] then expansion @ '' '' @ join '' '' remainder
                 else expansion) = (d', l')"
          by (simp add: expand_loop.simps [of al max_depth depth new_line])
        from "1.IH" [OF True Cons Some this "1.prems"(2)] show ?thesis .
      qed
    qed
  qed
qed

lemma expand_loop_fixed:
  "(case tokenize l of [] \<Rightarrow> True | first # remainder \<Rightarrow> map_of al first = None) \<Longrightarrow>
   expand_loop al m d l = (d, l)"
  by (simp add: expand_loop.simps [of al m d l] split: list.splits)

text \<open>
  Claim C8, as the code has it.  For every alias table, with or without cycles,
  and every line, also one whose expansion reached the depth cap of 5: when the
  first token of the expanded line is not an alias name (or the expanded line has
  no token), expanding the expanded line again returns it unchanged.  By
  \<open>expand_loop_stops\<close> every line whose expansion ends below the cap is such a line;
  a line that used all five rewrites is one as well when its alias chain ends
  there.
\<close>

theorem alias_expansion_idempotent_when_settled:
  assumes "case tokenize (expand_aliases_line al line 5) of
             [] \<Rightarrow> True
           | first # remainder \<Rightarrow> map_of al first = None"
  shows "expand_aliases_line al (expand_aliases_line al line 5) 5 =
         expand_aliases_line al line 5"
proof -
  from assms
  have "expand_loop al 5 0 (expand_aliases_line al line 5) = (0, expand_aliases_line al line 5)"
    by (rule expand_loop_fixed)
  then show ?thesis
    by (simp add: expand_aliases_line_def [of al "expand_aliases_line al line 5"])
qed

text \<open>
  Two lines the theorem covers.  With the chain of five aliases \<open>a \<rightarrow> b \<rightarrow> c \<rightarrow> d \<rightarrow> e \<rightarrow> f\<close>
  the line \<open>a\<close> is rewritten five times, so the loop is left at the cap, and the
  result \<open>f\<close> is not an alias: expanding \<open>f\<close> again changes nothing.  With the single
  alias \<open>ll \<rightarrow> ls -l\<close> the line \<open>ll /tmp\<close> is rewritten once.
\<close>

theorem alias_expansion_idempotent_when_settled_witness:
  "fst (expand_loop [(''a'', ''b''), (''b'', ''c''), (''c'', ''d''), (''d'', ''e''), (''e'', ''f'')]
          5 0 ''a'') = 5 \<and>
   expand_aliases_line [(''a'', ''b''), (''b'', ''c''), (''c'', ''d''), (''d'', ''e''), (''e'', ''f'')]
     ''a'' 5 = ''f'' \<and>
   expand_aliases_line [(''a'', ''b''), (''b'', ''c''), (''c'', ''d''), (''d'', ''e''), (''e'', ''f'')]
     ''f'' 5 = ''f'' \<and>
   fst (expand_loop [(''ll'', ''ls -l'')] 5 0 ''ll /tmp'') = 1 \<and>
   expand_aliases_line [(''ll'', ''ls -l'')] ''ll /tmp'' 5 = ''ls -l /tmp'' \<and>
   expand_aliases_line [(''ll'', ''ls -l'')] ''ls -l /tmp'' 5 = ''ls -l /tmp''"
proof -
  let ?T = "[(''a'', ''b''), (''b'', ''c''), (''c'', ''d''), (''d'', ''e''), (''e'', ''f'')]"
  have a: "expand_loop ?T 5 0 ''a'' = (5, ''f'')"
    by (simp add: expand_loop.simps token_eval)
  have ea: "expand_aliases_line ?T ''a'' 5 = ''f''"
    by (simp add: expand_aliases_line_def a token_eval)
  have tf: "tokenize ''f'' = [''f'']"
    by (simp add: token_eval)
  have ha: "case tokenize (expand_aliases_line ?T ''a'' 5) of
              [] \<Rightarrow> True
            | first # remainder \<Rightarrow> map_of ?T first = None"
    unfolding ea tf by simp
  have l: "expand_loop [(''ll'', ''ls -l'')] 5 0 ''ll /tmp'' = (1, ''ls -l /tmp'')"
    by (simp add: expand_loop.simps token_eval)
  have el: "expand_aliases_line [(''ll'', ''ls -l'')] ''ll /tmp'' 5 = ''ls -l /tmp''"
    by (simp add: expand_aliases_line_def l token_eval)
  have tl: "tokenize ''ls -l /tmp'' = [''ls'', ''-l'', ''/tmp'']"
    by (simp add: token_eval)
  have hl: "case tokenize (expand_aliases_line [(''ll'', ''ls -l'')] ''ll /tmp'' 5) of
              [] \<Rightarrow> True
            | first # remainder \<Rightarrow> map_of [(''ll'', ''ls -l'')] first = None"
    unfolding el tl by simp
  from alias_expansion_idempotent_when_settled [OF ha]
  have 1: "expand_aliases_line ?T ''f'' 5 = ''f''"
    unfolding ea .
  from alias_expansion_idempotent_when_settled [OF hl]
  have 2: "expand_aliases_line [(''ll'', ''ls -l'')] ''ls -l /tmp'' 5 = ''ls -l /tmp''"
    unfolding el .
  from a ea 1 l el 2 show ?thesis
    by simp
qed

text \<open>
  The claim as stated, for every line at the cap, fails.  With the aliases \<open>a \<rightarrow> b\<close> and \<open>b \<rightarrow> a\<close> the line \<open>a\<close>
  is rewritten five times and becomes \<open>b\<close>; expanding \<open>b\<close> rewrites five times
  again and gives \<open>a\<close>.
\<close>

theorem alias_expansion_at_cap_counterexample:
  "fst (expand_loop [(''a'', ''b''), (''b'', ''a'')] 5 0 ''a'') = 5 \<and>
   expand_aliases_line [(''a'', ''b''), (''b'', ''a'')] ''a'' 5 = ''b'' \<and>
   expand_aliases_line [(''a'', ''b''), (''b'', ''a'')]
     (expand_aliases_line [(''a'', ''b''), (''b'', ''a'')] ''a'' 5) 5 \<noteq>
   expand_aliases_line [(''a'', ''b''), (''b'', ''a'')] ''a'' 5"
proof -
  have a: "expand_loop [(''a'', ''b''), (''b'', ''a'')] 5 0 ''a'' = (5, ''b'')"
    by (simp add: expand_loop.simps token_eval)
  have b: "expand_loop [(''a'', ''b''), (''b'', ''a'')] 5 0 ''b'' = (5, ''a'')"
    by (simp add: expand_loop.simps token_eval)
  have sa: "strip ''a'' \<noteq> []" "strip ''b'' \<noteq> []"
    by (simp_all add: token_eval)
  show ?thesis
    using sa by (simp add: expand_aliases_line_def a b)
qed

section \<open>Properties of chain resolution\<close>

lemma length_pos_indices_loop:
  "length (pos_indices_loop i xs) = length (extract_positional_loop xs)"
  by (induction i xs rule: pos_indices_loop.induct) simp_all

lemma length_pos_indices: "length (pos_indices parts) = length (extract_positional parts)"
  by (simp add: pos_indices_def extract_positional_def length_pos_indices_loop)

lemma scan_chain_found:
  "scan_chain known i xs = Some (p, chain) \<Longrightarrow>
     i \<le> p \<and> p < i + length xs \<and> chain \<noteq> [] \<and> chain = takeWhile known (drop (p - i) xs)"
proof (induction xs arbitrary: i)
  case Nil
  then show ?case by simp
next
  case (Cons t ts)
  show ?case
  proof (cases "known t")
    case True
    with Cons.prems show ?thesis by auto
  next
    case False
    with Cons.prems have "scan_chain known (i + 1) ts = Some (p, chain)" by simp
    from Cons.IH [OF this]
    have ih: "i + 1 \<le> p" "p < i + 1 + length ts" "chain \<noteq> []"
      "chain = takeWhile known (drop (p - (i + 1)) ts)"
      by blast+
    from ih(1) have "p - i = Suc (p - (i + 1))" by arith
    with ih show ?thesis by simp
  qed
qed

lemma index_in_range: "i < length xs \<Longrightarrow> index xs i = Inr (xs ! i)"
  by (simp add: index_def)

lemma apply_chain_cases:
  "(\<exists>s'. apply_chain reg os names s v = (None, s')) \<or>
   (\<exists>t s'. apply_chain reg os names s v = (Some t, s'))"
  by (cases "apply_chain reg os names s v") (auto intro: option.exhaust)

text \<open>
  Claim C6.  For every registry, session, command name, token list and original
  text (given or not), \<open>_evaluate_composed_chain_if_any\<close> returns: no index it
  reads outside a \<open>try\<close> is out of range and every call of a command or built-in
  sits inside one.  It returns either \<open>(True, text)\<close> or \<open>(False, None)\<close>.
\<close>

theorem chain_resolution_never_raises:
  "\<exists>r s'. evaluate_composed_chain_if_any reg os s command parts original_text = Inr (r, s') \<and>
          (r = (False, None) \<or> (\<exists>text. r = (True, Some text)))"
proof (cases "scan_chain (recognized reg original_text) 0 (extract_positional parts)")
  case None
  then show ?thesis
    by (auto simp: evaluate_composed_chain_if_any_def Let_def)
next
  case (Some fc)
  obtain found_pos_idx chain where fc: "fc = (found_pos_idx, chain)" by (cases fc)
  from scan_chain_found [OF Some [unfolded fc]]
  have "found_pos_idx < length (pos_indices parts)"
    by (simp add: length_pos_indices)
  then have i: "index (pos_indices parts) found_pos_idx = Inr (pos_indices parts ! found_pos_idx)"
    by (rule index_in_range)
  show ?thesis
    unfolding evaluate_composed_chain_if_any_def Let_def Some fc
    by (auto simp: i bindE_def index_in_range
             split: sum.splits option.splits prod.splits bool.splits)
qed

theorem chain_resolution_never_raises_witness:
  "\<exists>r s'. evaluate_composed_chain_if_any
            [(''upper'', \<lparr>func = upper, doc = None\<rparr>)]
            \<lparr>home = ''/root'', os_chdir = (\<lambda>c p. Inr p), os_getcwd = (\<lambda>c. Inr c),
             os_listdir = (\<lambda>c p. Inr []), environ_refuses = (\<lambda>n v. None),
             which = (\<lambda>n. None), popen_wait = (\<lambda>c t. ([], Some 0, None))\<rparr>
            \<lparr>ALIASES = [], environ = [], cwd = ''/''\<rparr>
            ''upper'' [''upper'', ''help'', ''x''] (Some ''upper help x'') = Inr (r, s') \<and>
          (r = (False, None) \<or> (\<exists>text. r = (True, Some text)))"
  by (rule chain_resolution_never_raises)

section \<open>Properties of the tokenizer\<close>

lemma token_chars_simps [simp]:
  "token_chars (Inl e) = {}" "token_chars (Inr ts) = \<Union> (set ` set ts)"
  by (simp_all add: token_chars_def)

lemma token_chars_emit: "token_chars (emit t r) = (case r of Inl e \<Rightarrow> {} | Inr ts \<Rightarrow> set t \<union> token_chars r)"
  by (cases r) (auto simp: emit_def)

lemma read_tokens_chars:
  "token_chars (read_tokens st quoted token cs)
     \<subseteq> set token \<union> set cs \<union> (case st of Escape es \<Rightarrow> {CHR 0x5C} | _ \<Rightarrow> {})"
proof (induction st quoted token cs rule: read_tokens.induct)
  case (1 quoted token)
  show ?case by simp
next
  case (2 quoted token c cs)
  then show ?case
    by (cases "shlex_whitespace c"; cases "shlex_escape c"; cases "shlex_quote c")
       (auto simp: shlex_escape_def)
next
  case (3 quoted token)
  show ?case by simp
next
  case (4 quoted token c cs)
  then show ?case
    by (cases "shlex_whitespace c"; cases "shlex_escape c"; cases "shlex_quote c";
        cases "read_tokens Space False [] cs")
       (auto simp: shlex_escape_def token_chars_emit)
next
  case (5 q quoted token)
  show ?case by simp
next
  case (6 q quoted token c cs)
  then show ?case
    by (cases "c = q"; cases "shlex_escape c \<and> q = CHR 0x22")
       (auto simp: shlex_escape_def)
next
  case (7 es quoted token)
  show ?case by simp
next
  case (8 es quoted token c cs)
  then show ?case
    by (cases es) auto
qed

lemma split_runs_chars:
  "\<Union> (set ` set (split_runs sp cur cs)) \<subseteq> set cur \<union> set cs"
proof (induction sp cur cs rule: split_runs.induct)
  case (1 sp cur)
  show ?case by simp
next
  case (2 sp cur c cs)
  then show ?case
    by (cases "sp c"; cases "cur = []") auto
qed

lemma tokenize_chars: "t \<in> set (tokenize l) \<Longrightarrow> c \<in> set t \<Longrightarrow> c \<in> set l"
proof (cases "shlex_split l")
  case (Inl e)
  assume "t \<in> set (tokenize l)" "c \<in> set t"
  with Inl show ?thesis
    using split_runs_chars [of py_space "[]" l]
    by (auto simp: tokenize_def split_ws_def)
next
  case (Inr ts)
  assume "t \<in> set (tokenize l)" "c \<in> set t"
  with Inr show ?thesis
    using read_tokens_chars [of Space False "[]" l]
    by (auto simp: tokenize_def shlex_split_def)
qed

lemma dropWhile_chars: "c \<in> set s \<Longrightarrow> c \<in> set (dropWhile P s) \<or> P c"
  by (induction s) auto

lemma strip_chars_keep: "c \<in> set s \<Longrightarrow> c \<in> set (strip_chars P s) \<or> P c"
proof -
  assume c: "c \<in> set s"
  show ?thesis
  proof (cases "P c")
    case True
    then show ?thesis by simp
  next
    case False
    with c dropWhile_chars [of c s P] have "c \<in> set (rev (dropWhile P s))" by auto
    with False dropWhile_chars [of c "rev (dropWhile P s)" P]
    show ?thesis by (auto simp: strip_chars_def)
  qed
qed

lemma strip_keep: "c \<in> set s \<Longrightarrow> \<not> py_space c \<Longrightarrow> c \<in> set (strip s)"
  using strip_chars_keep [of c s py_space] by (simp add: strip_def)

lemma strip_drop_subset: "c \<in> set (strip (drop n s)) \<Longrightarrow> c \<in> set s"
proof -
  assume "c \<in> set (strip (drop n s))"
  then have "c \<in> set (dropWhile py_space (rev (dropWhile py_space (drop n s))))"
    by (simp add: strip_def strip_chars_def)
  then have "c \<in> set (dropWhile py_space (drop n s))"
    using set_dropWhileD by fastforce
  then have "c \<in> set (drop n s)"
    by (rule set_dropWhileD)
  then show ?thesis
    by (rule in_set_dropD)
qed

section \<open>The \<open>!cmd\<close> escape\<close>

lemma run_cmd_missing:
  "shell_executor_getattr ''run_cmd'' =
     Inl (PyExc ''AttributeError''
           (''module '' @ [CHR 0x27] @ ''modules.shell_executor'' @ [CHR 0x27]
            @ '' has no attribute '' @ [CHR 0x27] @ ''run_cmd'' @ [CHR 0x27]))"
  by (simp add: shell_executor_getattr_def shell_executor_names_def)

lemma first_token_cmd_chars:
  assumes "tokenize l \<noteq> []" and "hd (tokenize l) = ''!cmd''"
  shows "strip l \<noteq> []"
    and "lower (strip l) \<notin> set [''!suppressdebug'', ''!suppress-debug'']"
    and "lower (strip l) \<notin> set [''!resumedebug'', ''!enabledebug'', ''!unsuppressdebug'']"
proof -
  from assms have "''!cmd'' \<in> set (tokenize l)"
    by (metis hd_in_set)
  then have "CHR ''c'' \<in> set l"
    by (rule tokenize_chars) simp
  moreover have "\<not> py_space CHR ''c''"
    by (simp add: py_space_def)
  ultimately have c: "CHR ''c'' \<in> set (strip l)"
    by (rule strip_keep)
  then show "strip l \<noteq> []" by auto
  have "lower_char CHR ''c'' = CHR ''c''"
    by (simp add: lower_char_def)
  with c have "CHR ''c'' \<in> set (lower (strip l))"
    by (force simp: lower_def)
  then show "lower (strip l) \<notin> set [''!suppressdebug'', ''!suppress-debug'']"
    and "lower (strip l) \<notin> set [''!resumedebug'', ''!enabledebug'', ''!unsuppressdebug'']"
    by auto
qed

text \<open>
  Claim C10.  Let \<open>l\<close> be the line as \<open>handle_input\<close> dispatches it, that is after
  alias expansion.  Whenever the first token of \<open>l\<close> is \<open>!cmd\<close> and the text behind
  the first four characters is not blank, \<open>handle_input\<close> raises \<open>AttributeError\<close>,
  for \<open>shell_executor\<close> binds no name \<open>run_cmd\<close>.  Up to the raise nothing was done but
  the debug note of an alias expansion: no process was started, no task was put on
  the queue and no failure text was printed.
\<close>

theorem cmd_escape_raises_attribute_error:
  assumes "l = expand_aliases_line (ALIASES (sess sh)) line 5"
    and "tokenize l \<noteq> []" and "hd (tokenize l) = ''!cmd''"
    and "strip (drop 4 l) \<noteq> []"
  shows "\<exists>msg sh'.
           handle_input reg os sh line = (Raised (PyExc ''AttributeError'' msg), sh') \<and>
           sh' = (if l \<noteq> line then dbg (''Alias expanded: '' @ line @ '' -> '' @ l) sh else sh) \<and>
           popen_calls sh' = popen_calls sh \<and> task_queue sh' = task_queue sh"
proof -
  note t = first_token_cmd_chars [OF assms(2,3)]
  have blank: "\<not> (line = [] \<or> strip line = [])"
  proof
    assume "line = [] \<or> strip line = []"
    then have "l = line"
      by (auto simp: assms(1) expand_aliases_line_def)
    with t(1) \<open>line = [] \<or> strip line = []\<close> show False
      by (auto simp: strip_def strip_chars_def)
  qed
  have len: "length ''!cmd'' = 4" by simp
  have d: "strip (drop (length (hd (tokenize l))) l) \<noteq> []"
    unfolding assms(3) len by (rule assms(4))
  show ?thesis
    unfolding handle_input_def Let_def assms(1) [symmetric]
    using blank t assms(2,3) d
    by (simp add: run_cmd_missing dbg_def log_def del: set_simps)
qed

theorem cmd_escape_raises_attribute_error_witness:
  "\<exists>msg.
     handle_input []
       \<lparr>home = ''/root'', os_chdir = (\<lambda>c p. Inr p), os_getcwd = (\<lambda>c. Inr c),
        os_listdir = (\<lambda>c p. Inr []), environ_refuses = (\<lambda>n v. None),
        which = (\<lambda>n. None), popen_wait = (\<lambda>c t. ([], Some 0, None))\<rparr>
       \<lparr>sess = \<lparr>ALIASES = [], environ = [], cwd = ''/''\<rparr>, suppressed = False, printed = [],
        popen_calls = [], task_queue = [], incoming = [], get_calls = []\<rparr>
       ''!cmd dir'' =
     (Raised (PyExc ''AttributeError'' msg),
      \<lparr>sess = \<lparr>ALIASES = [], environ = [], cwd = ''/''\<rparr>, suppressed = False, printed = [],
       popen_calls = [], task_queue = [], incoming = [], get_calls = []\<rparr>)"
proof -
  let ?sh = "\<lparr>sess = \<lparr>ALIASES = [], environ = [], cwd = ''/''\<rparr>, suppressed = False,
              printed = [], popen_calls = [], task_queue = [], incoming = [], get_calls = []\<rparr>"
  have tk: "tokenize ''!cmd dir'' = [''!cmd'', ''dir'']"
    by (simp add: token_eval)
  have e: "''!cmd dir'' = expand_aliases_line (ALIASES (sess ?sh)) ''!cmd dir'' 5"
    by (simp add: expand_aliases_line_def expand_loop.simps tk)
  have s: "strip (drop 4 ''!cmd dir'') \<noteq> []"
    by (simp add: token_eval)
  from cmd_escape_raises_attribute_error [OF e _ _ s] tk show ?thesis
    by simp
qed

section \<open>Two lines of the specification\<close>


lemma chain_upper_reverse_hello:
  assumes "map_of reg ''upper'' = Some cu" "func cu = upper"
    and "map_of reg ''reverse'' = Some cr" "func cr = reverse io"
    and "map_of reg ''hello'' = None"
  shows "evaluate_composed_chain_if_any reg os s ''upper'' [''upper'', ''reverse'', ''hello'']
           (Some ''upper reverse hello'') = Inr ((True, Some ''OLLEH''), s)"
proof -
  have wq: "\<not> was_quoted ''reverse'' (Some ''upper reverse hello'')"
    by (simp add: was_quoted_def startswith_def)
  have r1: "recognized reg (Some ''upper reverse hello'') ''reverse''"
    using assms(3) wq by (simp add: recognized_def)
  have r2: "\<not> recognized reg (Some ''upper reverse hello'') ''hello''"
    using assms(5) by (simp add: recognized_def BUILTIN_NAMES_def)
  have ff: "find_from [''upper'', ''reverse'', ''hello''] ''reverse'' (Suc 0) = Some (Suc 0)"
    by (simp add: find_from_def upt_rec)
  have i1: "invoke reg os s ''reverse'' (build_args_from_parts [''reverse'', ''hello'']) =
              Inr (Some ''olleh'', s)"
    using assms(3,4)
    by (simp add: invoke_def BUILTIN_NAMES_def bindE_def build_args_from_parts_def
          reverse_def get_or_def get_str_def startswith_def)
  have i2: "invoke reg os s ''upper'' (build_args_from_parts [''upper'', ''olleh'']) =
              Inr (Some ''OLLEH'', s)"
    using assms(1,2)
    by (simp add: invoke_def BUILTIN_NAMES_def bindE_def build_args_from_parts_def
          upper_def get_str_def startswith_def upper_char_def)
  show ?thesis
    by (simp add: evaluate_composed_chain_if_any_def Let_def extract_positional_def
          pos_indices_def startswith_def r1 r2 ff index_def bindE_def i1 i2 consumed_length_def)
qed

text \<open>
  Claim C4.  With \<open>upper\<close> and \<open>reverse\<close> registered as the functions of
  \<open>commands.py\<close>, \<open>hello\<close> not a command and \<open>upper\<close> not an alias, dispatching
  \<open>upper reverse hello\<close> resolves the chain on the calling thread: \<open>reverse\<close> of
  \<open>hello\<close> is \<open>olleh\<close>, \<open>upper\<close> of \<open>olleh\<close> is \<open>OLLEH\<close>, and what the dispatch prints is
  \<open>OLLEH\<close> (after the result header when debug output is on).  Nothing else
  changes: no task is put on the queue.
\<close>

theorem dispatch_upper_reverse_hello:
  assumes "map_of reg ''upper'' = Some cu" "func cu = upper"
    and "map_of reg ''reverse'' = Some cr" "func cr = reverse io"
    and "map_of reg ''hello'' = None"
    and "map_of (ALIASES (sess sh)) ''upper'' = None"
  shows "reverse io [''str'' \<mapsto> ''hello''] = Inr ''olleh'' \<and>
         upper [''str'' \<mapsto> ''olleh''] = Inr ''OLLEH'' \<and>
         handle_input reg os sh ''upper reverse hello'' =
           (Returned,
            sh\<lparr>printed := printed sh @
                   (if suppressed sh then [Print ''OLLEH'']
                    else [Log ''[Worker sync] Ergebnis:'', Log ''OLLEH''])\<rparr>)"
proof -
  have tk: "tokenize ''upper reverse hello'' = [''upper'', ''reverse'', ''hello'']"
    by (simp add: token_eval)
  have st: "strip ''upper reverse hello'' = ''upper reverse hello''"
    by (simp add: token_eval)
  have lw: "lower ''upper reverse hello'' = ''upper reverse hello''"
    by (simp add: lower_def lower_char_def)
  have e: "expand_aliases_line (ALIASES (sess sh)) ''upper reverse hello'' 5 =
             ''upper reverse hello''"
    using assms(6) by (simp add: expand_aliases_line_def expand_loop_fixed tk)
  have h: "handle_input reg os sh ''upper reverse hello'' =
             (Returned, print_with_label ''OLLEH'' ''sync'' True sh)"
    by (simp add: handle_input_def dispatch_single_def Let_def e st lw tk
          chain_upper_reverse_hello [OF assms(1-5)])
  have p: "print_with_label ''OLLEH'' ''sync'' True sh =
             sh\<lparr>printed := printed sh @
                    (if suppressed sh then [Print ''OLLEH'']
                     else [Log ''[Worker sync] Ergebnis:'', Log ''OLLEH''])\<rparr>"
    by (simp add: print_with_label_def print_def log_def Let_def)
  have r: "reverse io [''str'' \<mapsto> ''hello''] = Inr ''olleh''"
    by (simp add: reverse_def get_or_def get_str_def)
  have u: "upper [''str'' \<mapsto> ''olleh''] = Inr ''OLLEH''"
    by (simp add: upper_def get_str_def upper_char_def)
  from h p r u show ?thesis by simp
qed

theorem dispatch_upper_reverse_hello_witness:
  "handle_input demo_registry demo_os demo_shell ''upper reverse hello'' =
     (Returned, demo_shell\<lparr>printed := [Log ''[Worker sync] Ergebnis:'', Log ''OLLEH'']\<rparr>)"
proof -
  have 1: "map_of demo_registry ''upper'' = Some \<lparr>func = upper, doc = None\<rparr>"
    and 2: "func \<lparr>func = upper, doc = None\<rparr> = upper"
    and 3: "map_of demo_registry ''reverse'' = Some \<lparr>func = reverse demo_io, doc = None\<rparr>"
    and 4: "func \<lparr>func = reverse demo_io, doc = None\<rparr> = reverse demo_io"
    and 5: "map_of demo_registry ''hello'' = None"
    and 6: "map_of (ALIASES (sess demo_shell)) ''upper'' = None"
    by (simp_all add: demo_registry_def demo_shell_def)
  from dispatch_upper_reverse_hello [OF 1 2 3 4 5 6, of demo_os] show ?thesis
    by (simp add: demo_shell_def)
qed





section \<open>What the dispatcher leaves unchanged\<close>

lemma log_frame [simp]:
  "task_queue (log m sh) = task_queue sh" "get_calls (log m sh) = get_calls sh"
  "incoming (log m sh) = incoming sh" "sess (log m sh) = sess sh"
  "suppressed (log m sh) = suppressed sh"
  by (simp_all add: log_def)

lemma print_frame [simp]:
  "task_queue (print m sh) = task_queue sh" "get_calls (print m sh) = get_calls sh"
  "incoming (print m sh) = incoming sh" "sess (print m sh) = sess sh"
  "suppressed (print m sh) = suppressed sh"
  by (simp_all add: print_def)

lemma dbg_frame [simp]:
  "task_queue (dbg m sh) = task_queue sh" "get_calls (dbg m sh) = get_calls sh"
  "incoming (dbg m sh) = incoming sh" "sess (dbg m sh) = sess sh"
  "suppressed (dbg m sh) = suppressed sh"
  by (simp_all add: dbg_def)

lemma fold_log_frame [simp]:
  "task_queue (fold (\<lambda>line. log (f line)) ls sh) = task_queue sh"
  "get_calls (fold (\<lambda>line. log (f line)) ls sh) = get_calls sh"
  "incoming (fold (\<lambda>line. log (f line)) ls sh) = incoming sh"
  "sess (fold (\<lambda>line. log (f line)) ls sh) = sess sh"
  "suppressed (fold (\<lambda>line. log (f line)) ls sh) = suppressed sh"
  by (induction ls arbitrary: sh) simp_all

lemma print_with_label_frame [simp]:
  "task_queue (print_with_label t l r sh) = task_queue sh"
  "get_calls (print_with_label t l r sh) = get_calls sh"
  "incoming (print_with_label t l r sh) = incoming sh"
  "sess (print_with_label t l r sh) = sess sh"
  "suppressed (print_with_label t l r sh) = suppressed sh"
  by (simp_all add: print_with_label_def Let_def)

lemma add_task_frame [simp]:
  "task_queue (add_task c a sh) = task_queue sh @ [(c, a)]"
  "get_calls (add_task c a sh) = get_calls sh"
  "incoming (add_task c a sh) = incoming sh" "sess (add_task c a sh) = sess sh"
  "suppressed (add_task c a sh) = suppressed sh"
  by (simp_all add: add_task_def)

lemma run_stream_frame [simp]:
  "task_queue (snd (run_stream os cl t sh)) = task_queue sh"
  "get_calls (snd (run_stream os cl t sh)) = get_calls sh"
  "sess (snd (run_stream os cl t sh)) = sess sh"
  by (simp_all add: run_stream_def split: prod.splits)

lemma run_pwsh_stream_frame [simp]:
  "task_queue (snd (run_pwsh_stream os c sh)) = task_queue sh"
  "get_calls (snd (run_pwsh_stream os c sh)) = get_calls sh"
  "sess (snd (run_pwsh_stream os c sh)) = sess sh"
  by (simp_all add: run_pwsh_stream_def split: option.splits)

lemma run_cmd_stream_frame [simp]:
  "task_queue (snd (run_cmd_stream os c sh)) = task_queue sh"
  "get_calls (snd (run_cmd_stream os c sh)) = get_calls sh"
  "sess (snd (run_cmd_stream os c sh)) = sess sh"
  by (simp_all add: run_cmd_stream_def)

lemma gather_frame:
  "task_queue (gather n sh) = task_queue sh \<and>
   get_calls (gather n sh) = get_calls sh @ replicate n (Get_timeout 10)"
proof (induction n arbitrary: sh)
  case 0
  show ?case by simp
next
  case (Suc n)
  show ?case
    by (simp add: Let_def Suc replicate_app_Cons_same split: list.splits option.splits prod.splits)
qed
section \<open>Properties of batch mode and of enqueued arguments\<close>

lemma batch_sub_tasks:
  assumes "batch_sub reg os g (sh, k) sub = Inr (sh', k')"
  shows "get_calls sh' = get_calls sh \<and>
         ((task_queue sh' = task_queue sh \<and> k' = k) \<or>
          (\<exists>v s1. evaluate_inner_chain_if_any reg os (sess sh) (tokenize sub) (Some sub)
                     = Inr ((True, v), s1) \<and>
                   task_queue sh' = task_queue sh @
                     [(hd (tokenize sub), [''str'' \<mapsto> (case v of Some t \<Rightarrow> t | None \<Rightarrow> ''None'')])] \<and>
                   k' = k + 1) \<or>
          ((\<exists>v s1. evaluate_inner_chain_if_any reg os (sess sh) (tokenize sub) (Some sub)
                     = Inr ((False, v), s1)) \<and>
           task_queue sh' = task_queue sh @
             [(hd (tokenize sub),
               expand_env_in_args (environ (sess sh')) (build_args_from_parts (tokenize sub)))] \<and>
           k' = k + 1))"
proof (cases "tokenize sub = []")
  case True
  with assms show ?thesis by (simp add: batch_sub_def)
next
  case False
  note ne = this
  let ?own = "g = None \<and> hd (tokenize sub) \<in> set [''!pwsh'', ''!cmd'']"
  let ?mode = "if ?own then Some (hd (tokenize sub)) else g"
  show ?thesis
  proof (cases ?mode)
    case (Some mode)
    with assms ne show ?thesis
      apply (simp add: batch_sub_def Let_def del: set_simps split: if_splits prod.splits option.splits)
      apply (metis run_pwsh_stream_frame(1,2) run_cmd_stream_frame(1,2) print_with_label_frame(1,2) dbg_frame(1,2) snd_conv)+
      done
  next
    case None
    obtain ok v s1 where c: "evaluate_inner_chain_if_any reg os (sess sh) (tokenize sub) (Some sub) = Inr ((ok, v), s1)"
      using assms ne None
      by (cases "evaluate_inner_chain_if_any reg os (sess sh) (tokenize sub) (Some sub)")
         (auto simp: batch_sub_def Let_def bindE_def split: if_splits)
    show ?thesis
    proof (cases ok)
      case True
      with assms ne None c show ?thesis
        by (simp add: batch_sub_def Let_def bindE_def del: set_simps split: if_splits) auto
    next
      case False
      with assms ne None c show ?thesis
        by (cases "run_builtin reg os s1 (hd (tokenize sub)) (build_args_from_parts (tokenize sub))")
           (auto simp: batch_sub_def Let_def bindE_def simp del: set_simps
                 split: if_splits option.splits)
    qed
  qed
qed
lemma batch_loop_tasks:
  "batch_loop reg os g (sh, k) subs = Inr (sh', k') \<Longrightarrow>
     get_calls sh' = get_calls sh \<and>
     (\<exists>ts. task_queue sh' = task_queue sh @ ts \<and> k' = k + length ts \<and> length ts \<le> length subs)"
proof (induction subs arbitrary: sh k)
  case Nil
  then show ?case by simp
next
  case (Cons sub subs)
  from Cons.prems obtain sh1 k1 where
    1: "batch_sub reg os g (sh, k) sub = Inr (sh1, k1)" and
    2: "batch_loop reg os g (sh1, k1) subs = Inr (sh', k')"
    by (cases "batch_sub reg os g (sh, k) sub") (auto simp: bindE_def)
  from batch_sub_tasks [OF 1] obtain t1 where
    g1: "get_calls sh1 = get_calls sh" and
    t1: "task_queue sh1 = task_queue sh @ t1" "k1 = k + length t1" "length t1 \<le> 1"
    by fastforce
  from Cons.IH [OF 2] obtain t2 where
    g2: "get_calls sh' = get_calls sh1" and
    t2: "task_queue sh' = task_queue sh1 @ t2" "k' = k1 + length t2" "length t2 \<le> length subs"
    by blast
  from g1 g2 t1 t2 show ?case
    by (intro conjI exI [of _ "t1 @ t2"]) simp_all
qed

lemma run_builtin_other:
  "command \<notin> set BUILTIN_NAMES \<Longrightarrow> run_builtin reg os s command a = Inr ((False, None), s)"
  by (simp add: run_builtin_def BUILTIN_NAMES_def)

lemma inner_chain_returns:
  "\<exists>ok v s'. evaluate_inner_chain_if_any reg os s parts original_text = Inr ((ok, v), s')"
  unfolding evaluate_inner_chain_if_any_def Let_def
  by (auto split: sum.splits option.splits prod.splits)

lemma batch_sub_worker:
  assumes "tokenize sub \<noteq> []"
    and "hd (tokenize sub) \<notin> set (''!pwsh'' # ''!cmd'' # BUILTIN_NAMES)"
  shows "\<exists>sh'. batch_sub reg os None (sh, k) sub = Inr (sh', k + 1)"
proof -
  obtain ok v s1 where
    c: "evaluate_inner_chain_if_any reg os (sess sh) (tokenize sub) (Some sub) = Inr ((ok, v), s1)"
    using inner_chain_returns by blast
  from assms(2) have nb: "hd (tokenize sub) \<notin> set BUILTIN_NAMES"
    and ns: "hd (tokenize sub) \<noteq> ''!pwsh''" "hd (tokenize sub) \<noteq> ''!cmd''"
    by simp_all
  show ?thesis
    by (cases ok)
       (simp_all add: batch_sub_def Let_def assms(1) ns c bindE_def run_builtin_other [OF nb])
qed

lemma batch_loop_workers:
  assumes "\<forall>sub\<in>set subs. tokenize sub \<noteq> [] \<and>
             hd (tokenize sub) \<notin> set (''!pwsh'' # ''!cmd'' # BUILTIN_NAMES)"
  shows "\<exists>sh'. batch_loop reg os None (sh, k) subs = Inr (sh', k + length subs)"
  using assms
proof (induction subs arbitrary: sh k)
  case Nil
  show ?case by simp
next
  case (Cons sub subs)
  from Cons.prems have "tokenize sub \<noteq> []"
    and "hd (tokenize sub) \<notin> set (''!pwsh'' # ''!cmd'' # BUILTIN_NAMES)"
    by simp_all
  from batch_sub_worker [OF this] obtain sh1 where
    1: "batch_sub reg os None (sh, k) sub = Inr (sh1, k + 1)"
    by blast
  from Cons.prems have "\<forall>sub\<in>set subs. tokenize sub \<noteq> [] \<and>
             hd (tokenize sub) \<notin> set (''!pwsh'' # ''!cmd'' # BUILTIN_NAMES)"
    by simp
  from Cons.IH [OF this, of sh1 "k + 1"] obtain sh' where
    "batch_loop reg os None (sh1, k + 1) subs = Inr (sh', k + 1 + length subs)"
    by blast
  with 1 show ?case
    by (simp add: bindE_def)
qed

lemma batch_subcommands_blank: "batch_subcommands [] = []"
  by (simp add: batch_subcommands_def batch_global_shell_def token_eval)

text \<open>
  Claim C2, as the code has it.  When the batch branch returns, the tasks it has
  put on the queue are as many as the reads it then makes of the result queue,
  each read with the timeout of 10 seconds, and they are at most as many as the
  subcommands of the line: a subcommand run as a shell escape or answered by a
  built-in puts no task on the queue and causes no read.  When no shell marker
  applies and no subcommand begins with a shell marker or a built-in name, the
  batch branch does return, and the tasks and the reads are exactly as many as the
  subcommands.
\<close>

theorem batch_reads_match_enqueued_tasks:
  "(multithread reg os sh command command_line = (Returned, sh') \<longrightarrow>
      (\<exists>ts. task_queue sh' = task_queue sh @ ts \<and>
            get_calls sh' = get_calls sh @ replicate (length ts) (Get_timeout 10) \<and>
            length ts \<le> length (batch_subcommands (strip (drop (length command) command_line))))) \<and>
   (batch_global_shell (strip (drop (length command) command_line)) = None \<and>
    (\<forall>sub\<in>set (batch_subcommands (strip (drop (length command) command_line))).
        tokenize sub \<noteq> [] \<and>
        hd (tokenize sub) \<notin> set (''!pwsh'' # ''!cmd'' # BUILTIN_NAMES)) \<longrightarrow>
      (\<exists>sh'' ts. multithread reg os sh command command_line = (Returned, sh'') \<and>
                 task_queue sh'' = task_queue sh @ ts \<and>
                 length ts = length (batch_subcommands (strip (drop (length command) command_line))) \<and>
                 get_calls sh'' = get_calls sh @
                   replicate (length (batch_subcommands (strip (drop (length command) command_line))))
                     (Get_timeout 10)))"
proof (intro conjI impI)
  let ?r = "strip (drop (length command) command_line)"
  assume a: "multithread reg os sh command command_line = (Returned, sh')"
  show "\<exists>ts. task_queue sh' = task_queue sh @ ts \<and>
             get_calls sh' = get_calls sh @ replicate (length ts) (Get_timeout 10) \<and>
             length ts \<le> length (batch_subcommands ?r)"
  proof (cases "?r = [] \<or> batch_subcommands ?r = []")
    case True
    with a have "sh' = dbg ''Keine Unterbefehle angegeben.'' sh"
      by (auto simp: multithread_def Let_def split: if_splits)
    then show ?thesis by simp
  next
    case False
    with a obtain sh1 k where
      l: "batch_loop reg os (batch_global_shell ?r) (sh, 0) (batch_subcommands ?r) = Inr (sh1, k)" and
      s: "sh' = gather k (dbg (''Added '' @ str_nat k @ '' tasks (multithread)'') sh1)"
      by (auto simp: multithread_def Let_def split: if_splits sum.splits)
    from batch_loop_tasks [OF l] obtain ts where
      "get_calls sh1 = get_calls sh" "task_queue sh1 = task_queue sh @ ts" "k = length ts"
      "length ts \<le> length (batch_subcommands ?r)"
      by auto
    with s show ?thesis
      by (simp add: gather_frame)
  qed
next
  let ?r = "strip (drop (length command) command_line)"
  assume w: "batch_global_shell ?r = None \<and>
    (\<forall>sub\<in>set (batch_subcommands ?r).
        tokenize sub \<noteq> [] \<and> hd (tokenize sub) \<notin> set (''!pwsh'' # ''!cmd'' # BUILTIN_NAMES))"
  then have g: "batch_global_shell ?r = None" and
    ws: "\<forall>sub\<in>set (batch_subcommands ?r).
        tokenize sub \<noteq> [] \<and> hd (tokenize sub) \<notin> set (''!pwsh'' # ''!cmd'' # BUILTIN_NAMES)"
    by blast+
  show "\<exists>sh'' ts. multithread reg os sh command command_line = (Returned, sh'') \<and>
                 task_queue sh'' = task_queue sh @ ts \<and>
                 length ts = length (batch_subcommands ?r) \<and>
                 get_calls sh'' = get_calls sh @
                   replicate (length (batch_subcommands ?r)) (Get_timeout 10)"
  proof (cases "?r = [] \<or> batch_subcommands ?r = []")
    case True
    then have e: "batch_subcommands ?r = []"
      by (auto simp: batch_subcommands_blank)
    from True have "multithread reg os sh command command_line =
                      (Returned, dbg ''Keine Unterbefehle angegeben.'' sh)"
      by (auto simp: multithread_def Let_def)
    with e show ?thesis
      by simp
  next
    case False
    from batch_loop_workers [OF ws, of reg os sh 0] obtain sh1 where
      l: "batch_loop reg os None (sh, 0) (batch_subcommands ?r) = Inr (sh1, length (batch_subcommands ?r))"
      by auto
    from batch_loop_tasks [OF l] obtain ts where
      t: "get_calls sh1 = get_calls sh" "task_queue sh1 = task_queue sh @ ts"
         "length (batch_subcommands ?r) = length ts"
      by auto
    from False l g
    have "multithread reg os sh command command_line =
            (Returned,
             gather (length (batch_subcommands ?r))
               (dbg (''Added '' @ str_nat (length (batch_subcommands ?r)) @ '' tasks (multithread)'')
                  sh1))"
      by (simp add: multithread_def Let_def)
    with t show ?thesis
      by (simp add: gather_frame)
  qed
qed

section \<open>Batch lines on the small instance\<close>

lemmas chain_eval =
  evaluate_inner_chain_if_any_def extract_positional_def recognized_def was_quoted_def
  startswith_def BUILTIN_NAMES_def demo_registry_def Let_def

lemma batch_sub_echo_a:
  "batch_sub demo_registry demo_os None (sh, k) ''echo a'' =
     Inr (print_with_label ''a'' ''sync'' False sh, k)"
proof -
  have tk: "tokenize ''echo a'' = [''echo'', ''a'']"
    by (simp add: token_eval)
  have ch: "evaluate_inner_chain_if_any demo_registry demo_os (sess sh) [''echo'', ''a'']
              (Some ''echo a'') = Inr ((False, None), sess sh)"
    by (simp add: chain_eval)
  have rb: "run_builtin demo_registry demo_os (sess sh) ''echo''
              (build_args_from_parts [''echo'', ''a'']) = Inr ((True, Some ''a''), sess sh)"
    by (simp add: run_builtin_def build_args_from_parts_def get_str_def expand_env_in_str_def)
  show ?thesis
    by (simp add: batch_sub_def Let_def tk ch rb bindE_def)
qed

lemma batch_sub_echo_b:
  "batch_sub demo_registry demo_os None (sh, k) ''echo b'' =
     Inr (print_with_label ''b'' ''sync'' False sh, k)"
proof -
  have tk: "tokenize ''echo b'' = [''echo'', ''b'']"
    by (simp add: token_eval)
  have ch: "evaluate_inner_chain_if_any demo_registry demo_os (sess sh) [''echo'', ''b'']
              (Some ''echo b'') = Inr ((False, None), sess sh)"
    by (simp add: chain_eval)
  have rb: "run_builtin demo_registry demo_os (sess sh) ''echo''
              (build_args_from_parts [''echo'', ''b'']) = Inr ((True, Some ''b''), sess sh)"
    by (simp add: run_builtin_def build_args_from_parts_def get_str_def expand_env_in_str_def)
  show ?thesis
    by (simp add: batch_sub_def Let_def tk ch rb bindE_def)
qed

lemma batch_line_echo:
  "batch_global_shell ''echo a & echo b'' = None"
  "batch_subcommands ''echo a & echo b'' = [''echo a'', ''echo b'']"
proof -
  have tk: "tokenize ''echo a & echo b'' = [''echo'', ''a'', ''&'', ''echo'', ''b'']"
    by (simp add: token_eval)
  show g: "batch_global_shell ''echo a & echo b'' = None"
    by (simp add: batch_global_shell_def tk)
  show "batch_subcommands ''echo a & echo b'' = [''echo a'', ''echo b'']"
    by (simp add: batch_subcommands_def g token_eval)
qed

text \<open>
  The line \<open>!mt echo a & echo b\<close> has two subcommands, and \<open>echo\<close> is a built-in:
  both are answered on the calling thread, no task is put on the queue and the
  result queue is not read.
\<close>

theorem batch_echo_counterexample:
  "handle_input demo_registry demo_os demo_shell ''!mt echo a & echo b'' =
     (Returned,
      demo_shell\<lparr>printed := [Log ''[Worker sync] a'', Log ''[Worker sync] b'',
                             Log ''Added 0 tasks (multithread)'']\<rparr>) \<and>
   batch_subcommands ''echo a & echo b'' = [''echo a'', ''echo b''] \<and>
   task_queue (snd (handle_input demo_registry demo_os demo_shell ''!mt echo a & echo b'')) = [] \<and>
   get_calls (snd (handle_input demo_registry demo_os demo_shell ''!mt echo a & echo b'')) = []"
proof -
  have tk: "tokenize ''!mt echo a & echo b'' = [''!mt'', ''echo'', ''a'', ''&'', ''echo'', ''b'']"
    by (simp add: token_eval)
  have st: "strip ''!mt echo a & echo b'' = ''!mt echo a & echo b''"
    by (simp add: token_eval)
  have lw: "lower ''!mt echo a & echo b'' = ''!mt echo a & echo b''"
    by (simp add: lower_def lower_char_def)
  have e: "expand_aliases_line (ALIASES (sess demo_shell)) ''!mt echo a & echo b'' 5 =
             ''!mt echo a & echo b''"
    by (simp add: expand_aliases_line_def expand_loop_fixed tk demo_shell_def)
  have r: "strip '' echo a & echo b'' = ''echo a & echo b''"
    by (simp add: token_eval)
  have m: "multithread demo_registry demo_os demo_shell ''!mt'' ''!mt echo a & echo b'' =
             (Returned,
              gather 0 (dbg (''Added '' @ str_nat 0 @ '' tasks (multithread)'')
                (print_with_label ''b'' ''sync'' False
                   (print_with_label ''a'' ''sync'' False demo_shell))))"
    by (simp add: multithread_def Let_def r batch_line_echo batch_sub_echo_a batch_sub_echo_b
          bindE_def)
  have p: "gather 0 (dbg (''Added '' @ str_nat 0 @ '' tasks (multithread)'')
                (print_with_label ''b'' ''sync'' False
                   (print_with_label ''a'' ''sync'' False demo_shell))) =
           demo_shell\<lparr>printed := [Log ''[Worker sync] a'', Log ''[Worker sync] b'',
                             Log ''Added 0 tasks (multithread)'']\<rparr>"
    by (simp add: dbg_def log_def print_with_label_def Let_def splitlines_def line_end_def
          str_nat.simps demo_shell_def)
  have h: "handle_input demo_registry demo_os demo_shell ''!mt echo a & echo b'' =
     (Returned,
      demo_shell\<lparr>printed := [Log ''[Worker sync] a'', Log ''[Worker sync] b'',
                             Log ''Added 0 tasks (multithread)'']\<rparr>)"
    using p by (simp add: handle_input_def Let_def e st lw tk m)
  have q: "task_queue demo_shell = []" "get_calls demo_shell = []"
    by (simp_all add: demo_shell_def)
  show ?thesis
    by (simp add: h batch_line_echo q)
qed

text \<open>
  A batch line the second part of the theorem covers: the subcommands of
  \<open>!mt upper a & reverse b\<close> are two worker commands, so two tasks are put on the
  queue and the result queue is read twice, each time with the timeout.
\<close>

theorem batch_reads_match_enqueued_tasks_witness:
  "\<exists>sh'. multithread demo_registry demo_os demo_shell ''!mt'' ''!mt upper a & reverse b'' =
            (Returned, sh') \<and>
         length (task_queue sh') = 2 \<and>
         get_calls sh' = [Get_timeout 10, Get_timeout 10]"
proof -
  have r: "strip (drop (length ''!mt'') ''!mt upper a & reverse b'') = ''upper a & reverse b''"
    by (simp add: token_eval)
  have tk: "tokenize ''upper a & reverse b'' = [''upper'', ''a'', ''&'', ''reverse'', ''b'']"
    by (simp add: token_eval)
  have g: "batch_global_shell ''upper a & reverse b'' = None"
    by (simp add: batch_global_shell_def tk)
  have sc: "batch_subcommands ''upper a & reverse b'' = [''upper a'', ''reverse b'']"
    by (simp add: batch_subcommands_def g token_eval)
  have ta: "tokenize ''upper a'' = [''upper'', ''a'']"
    by (simp add: token_eval)
  have tb: "tokenize ''reverse b'' = [''reverse'', ''b'']"
    by (simp add: token_eval)
  have w: "batch_global_shell (strip (drop (length ''!mt'') ''!mt upper a & reverse b'')) = None \<and>
    (\<forall>sub\<in>set (batch_subcommands (strip (drop (length ''!mt'') ''!mt upper a & reverse b''))).
        tokenize sub \<noteq> [] \<and>
        hd (tokenize sub) \<notin> set (''!pwsh'' # ''!cmd'' # BUILTIN_NAMES))"
    unfolding r by (simp add: g sc ta tb BUILTIN_NAMES_def)
  from batch_reads_match_enqueued_tasks
         [where reg = demo_registry and os = demo_os and sh = demo_shell
            and command = "''!mt''" and command_line = "''!mt upper a & reverse b''"] w
  obtain sh'' ts where
    1: "multithread demo_registry demo_os demo_shell ''!mt'' ''!mt upper a & reverse b'' =
          (Returned, sh'')" and
    2: "task_queue sh'' = task_queue demo_shell @ ts" and
    3: "length ts =
          length (batch_subcommands (strip (drop (length ''!mt'') ''!mt upper a & reverse b'')))" and
    4: "get_calls sh'' = get_calls demo_shell @
          replicate (length (batch_subcommands
                        (strip (drop (length ''!mt'') ''!mt upper a & reverse b''))))
            (Get_timeout 10)"
    by blast
  have q: "task_queue demo_shell = []" "get_calls demo_shell = []"
    by (simp_all add: demo_shell_def)
  from 3 have l: "length ts = 2"
    unfolding r sc by simp
  from 4 have c: "get_calls sh'' = [Get_timeout 10, Get_timeout 10]"
    unfolding r sc q by (simp add: numeral_2_eq_2)
  from 2 l have "length (task_queue sh'') = 2"
    by (simp add: q)
  with 1 c show ?thesis
    by blast
qed

section \<open>Variable expansion of enqueued arguments\<close>




end
